theory Spec2Isabelle
  imports Main "HOL-Library.AList"
begin

section \<open>JavaScript values\<close>

text \<open>
  The version service of the schema editor (\<^verbatim>\<open>src/server/services/versionService.ts\<close>)
  works on values that TypeScript types as \<^verbatim>\<open>unknown\<close> or as records of optional
  attributes, and it decides by \<^verbatim>\<open>!== undefined\<close>, \<^verbatim>\<open>=== false\<close> and truthiness.
  The embedding therefore keeps JavaScript values as they are at run time. An object is
  its list of own entries in insertion order (the order of \<^verbatim>\<open>Object.entries\<close>); a real
  object never holds a key twice. Numbers are integers here, so fractions and \<^verbatim>\<open>NaN\<close>
  are not represented, and neither is the reordering of integer-like keys. Characters
  are code units below 256.
\<close>

datatype jsval =
    JUndefined
  | JNull
  | JBool bool
  | JNum int
  | JStr string
  | JArr "jsval list"
  | JObj "(string \<times> jsval) list"

type_synonym jsobj = "(string \<times> jsval) list"

datatype error =
    TypeError
  | StoreNotInitialized
  | SchemasDirNotInitialized
  | NoChangesToCreateVersion
  | NoVersionToRestoreFrom
  | CollaboratorError string

fun truthy :: "jsval \<Rightarrow> bool" where
  "truthy JUndefined = False"
| "truthy JNull = False"
| "truthy (JBool b) = b"
| "truthy (JNum n) = (n \<noteq> 0)"
| "truthy (JStr s) = (s \<noteq> [])"
| "truthy (JArr xs) = True"
| "truthy (JObj kvs) = True"

fun nullish :: "jsval \<Rightarrow> bool" where
  "nullish JUndefined = True"
| "nullish JNull = True"
| "nullish v = False"

text \<open>\<^verbatim>\<open>obj.k\<close> on an object: the own entry, or \<^verbatim>\<open>undefined\<close>.\<close>

definition objGet :: "jsobj \<Rightarrow> string \<Rightarrow> jsval" where
  "objGet obj k = (case map_of obj k of Some v \<Rightarrow> v | None \<Rightarrow> JUndefined)"

text \<open>
  \<^verbatim>\<open>v.k\<close> on a value that is neither \<^verbatim>\<open>null\<close> nor \<^verbatim>\<open>undefined\<close>. The service reads
  fixed attribute names only; of these, strings and arrays answer \<^verbatim>\<open>length\<close> and
  nothing else, numbers and booleans answer none.
\<close>

fun getProp :: "jsval \<Rightarrow> string \<Rightarrow> jsval" where
  "getProp (JObj kvs) k = objGet kvs k"
| "getProp (JArr xs) k = (if k = ''length'' then JNum (int (length xs)) else JUndefined)"
| "getProp (JStr s) k = (if k = ''length'' then JNum (int (length s)) else JUndefined)"
| "getProp v k = JUndefined"

text \<open>\<^verbatim>\<open>v?.k\<close>: \<^verbatim>\<open>undefined\<close> when \<^verbatim>\<open>v\<close> is nullish.\<close>

definition optChain :: "jsval \<Rightarrow> string \<Rightarrow> jsval" where
  "optChain v k = (if nullish v then JUndefined else getProp v k)"

text \<open>
  \<^verbatim>\<open>obj[k] = v\<close> on an object made by a literal: replaces the entry in place, or
  appends a new one. The key \<^verbatim>\<open>__proto__\<close> is the exception: assigning to it calls the
  inherited setter, which changes the prototype and adds no own entry. The prototype
  is not read afterwards (the service lists own keys only), so the own entries are all
  that is kept here.
\<close>

definition objSet :: "jsobj \<Rightarrow> string \<Rightarrow> jsval \<Rightarrow> jsobj" where
  "objSet obj k v = (if k = ''__proto__'' then obj else AList.update k v obj)"

text \<open>Decimal digits of a number, as a template literal prints it.\<close>

definition digitChar :: "nat \<Rightarrow> char" where
  "digitChar d = ''0123456789'' ! d"

function showNat :: "nat \<Rightarrow> string" where
  "showNat n = (if n < 10 then [digitChar n] else showNat (n div 10) @ [digitChar (n mod 10)])"
  by pat_completeness auto
termination
  by (relation "measure (\<lambda>n. n)") auto

declare showNat.simps [simp del]

text \<open>
  \<^verbatim>\<open>Object.entries(v)\<close> for a truthy \<^verbatim>\<open>v\<close> (both call sites test \<^verbatim>\<open>v\<close> first):
  the entries of an object, the indexed elements of an array or string, nothing for a
  number or boolean.
\<close>

fun objectEntries :: "jsval \<Rightarrow> (string \<times> jsval) list" where
  "objectEntries (JObj kvs) = kvs"
| "objectEntries (JArr xs) = zip (map showNat [0..<length xs]) xs"
| "objectEntries (JStr s) = zip (map showNat [0..<length s]) (map (\<lambda>c. JStr [c]) s)"
| "objectEntries v = []"

text \<open>\<^verbatim>\<open>xs.map(f)\<close> where \<^verbatim>\<open>f\<close> may throw: the first exception ends the loop.\<close>

fun mapE :: "('a \<Rightarrow> error + 'b) \<Rightarrow> 'a list \<Rightarrow> error + 'b list" where
  "mapE f [] = Inr []"
| "mapE f (x # xs) =
     (case f x of
        Inl e \<Rightarrow> Inl e
      | Inr y \<Rightarrow> (case mapE f xs of Inl e \<Rightarrow> Inl e | Inr ys \<Rightarrow> Inr (y # ys)))"

text \<open>
  \<^verbatim>\<open>[...v]\<close>: an array is copied, a string is split into its characters, any other
  value is not iterable.
\<close>

fun spread :: "jsval \<Rightarrow> error + jsval list" where
  "spread (JArr xs) = Inr xs"
| "spread (JStr s) = Inr (map (\<lambda>c. JStr [c]) s)"
| "spread v = Inl TypeError"

section \<open>Normalisation: raw schemas to snapshots\<close>

text \<open>\<^verbatim>\<open>...(v.k !== undefined && { k: v.k })\<close>\<close>

definition copyIfDefined :: "jsval \<Rightarrow> string \<Rightarrow> jsobj" where
  "copyIfDefined v k = (if getProp v k \<noteq> JUndefined then [(k, getProp v k)] else [])"

text \<open>
  \<^verbatim>\<open>propertyToSnapshot\<close>. The argument comes out of \<^verbatim>\<open>Object.entries\<close> and is cast,
  unchecked, to a record: reading \<^verbatim>\<open>prop.type\<close> throws when it is nullish.
\<close>

definition propertyToSnapshot :: "jsval \<Rightarrow> error + jsobj" where
  "propertyToSnapshot prop =
     (if nullish prop then Inl TypeError
      else Inr ([(''type'', getProp prop ''type'')]
        @ copyIfDefined prop ''displayName''
        @ copyIfDefined prop ''description''
        @ copyIfDefined prop ''nullable''
        @ copyIfDefined prop ''unique''
        @ copyIfDefined prop ''default''
        @ copyIfDefined prop ''length''
        @ copyIfDefined prop ''unsigned''
        @ copyIfDefined prop ''precision''
        @ copyIfDefined prop ''scale''
        @ copyIfDefined prop ''enum''
        @ copyIfDefined prop ''relation''
        @ copyIfDefined prop ''target''
        @ copyIfDefined prop ''targets''
        @ copyIfDefined prop ''morphName''
        @ copyIfDefined prop ''onDelete''
        @ copyIfDefined prop ''onUpdate''
        @ copyIfDefined prop ''mappedBy''
        @ copyIfDefined prop ''inversedBy''
        @ copyIfDefined prop ''joinTable''
        @ copyIfDefined prop ''owning''))"

text \<open>
  The loop \<^verbatim>\<open>properties[propName] = propertyToSnapshot(prop)\<close> over the entries of
  \<^verbatim>\<open>schema.properties\<close>, started on the empty object.
\<close>

fun propertiesLoop :: "(string \<times> jsval) list \<Rightarrow> jsobj \<Rightarrow> error + jsobj" where
  "propertiesLoop [] properties = Inr properties"
| "propertiesLoop ((propName, prop) # rest) properties =
     (case propertyToSnapshot prop of
        Inl e \<Rightarrow> Inl e
      | Inr p \<Rightarrow> propertiesLoop rest (objSet properties propName (JObj p)))"

text \<open>The callback of \<^verbatim>\<open>rawIndexes?.map\<close>.\<close>

definition indexToSnapshot :: "jsval \<Rightarrow> error + jsval" where
  "indexToSnapshot idx =
     (if nullish idx then Inl TypeError
      else Inr (JObj ([(''columns'', getProp idx ''columns'')]
        @ copyIfDefined idx ''unique''
        @ copyIfDefined idx ''name''
        @ copyIfDefined idx ''type'')))"

text \<open>The callback of \<^verbatim>\<open>rawUnique?.map\<close>, with the position of the constraint.\<close>

definition uniqueAsIndex :: "nat \<Rightarrow> jsval \<Rightarrow> jsval" where
  "uniqueAsIndex i cols =
     JObj [(''columns'', cols), (''unique'', JBool True), (''name'', JStr (''unique_'' @ showNat i))]"

text \<open>
  \<^verbatim>\<open>(v?.map(f)) ?? []\<close>: nullish gives the empty list, an array is mapped, and any
  other value has no \<^verbatim>\<open>map\<close> method to call.
\<close>

definition indexSnapshots :: "jsval \<Rightarrow> error + jsval list" where
  "indexSnapshots rawIndexes =
     (case rawIndexes of
        JUndefined \<Rightarrow> Inr []
      | JNull \<Rightarrow> Inr []
      | JArr idxs \<Rightarrow> mapE indexToSnapshot idxs
      | _ \<Rightarrow> Inl TypeError)"

definition uniqueAsIndexes :: "jsval \<Rightarrow> error + jsval list" where
  "uniqueAsIndexes rawUnique =
     (case rawUnique of
        JUndefined \<Rightarrow> Inr []
      | JNull \<Rightarrow> Inr []
      | JArr us \<Rightarrow> Inr (map (\<lambda>(i, cols). uniqueAsIndex i cols) (zip [0..<length us] us))
      | _ \<Rightarrow> Inl TypeError)"

text \<open>\<^verbatim>\<open>if (c) obj.k = v\<close>\<close>

definition setWhen :: "bool \<Rightarrow> string \<Rightarrow> jsval \<Rightarrow> jsobj \<Rightarrow> jsobj" where
  "setWhen c k v obj = (if c then objSet obj k v else obj)"

text \<open>
  The options of the snapshot: only values that differ from the default are stored.
  Each line is one \<^verbatim>\<open>if (...) snapshotOptions.k = ...\<close> of the source, in its order.
\<close>

definition snapshotOptions :: "jsval \<Rightarrow> jsval list \<Rightarrow> jsobj" where
  "snapshotOptions opts allIndexes =
     (let o0 = [];
          o1 = setWhen (optChain opts ''id'' = JBool False) ''id'' (JBool False) o0;
          o2 = setWhen (truthy (optChain opts ''idType'') \<and> getProp opts ''idType'' \<noteq> JStr ''BigInt'')
                 ''idType'' (getProp opts ''idType'') o1;
          o3 = setWhen (optChain opts ''timestamps'' = JBool False) ''timestamps'' (JBool False) o2;
          o4 = setWhen (optChain opts ''softDelete'' = JBool True) ''softDelete'' (JBool True) o3;
          o5 = setWhen (truthy (optChain opts ''tableName'')) ''tableName'' (getProp opts ''tableName'') o4;
          o6 = setWhen (optChain opts ''translations'' = JBool True) ''translations'' (JBool True) o5;
          o7 = setWhen (optChain opts ''authenticatable'' = JBool True)
                 ''authenticatable'' (JBool True) o6;
          o8 = setWhen (allIndexes \<noteq> []) ''indexes'' (JArr allIndexes) o7
      in o8)"

text \<open>
  The body of the loop of \<^verbatim>\<open>schemasToSnapshot\<close>: the snapshot of one schema.
  \<^verbatim>\<open>schema.kind ?? 'object'\<close> replaces a nullish kind only.
\<close>

definition schemaToSnapshot :: "jsobj \<Rightarrow> error + jsobj" where
  "schemaToSnapshot schema =
     (case (if truthy (objGet schema ''properties'')
            then propertiesLoop (objectEntries (objGet schema ''properties'')) []
            else Inr []) of
        Inl e \<Rightarrow> Inl e
      | Inr properties \<Rightarrow>
     (let opts = objGet schema ''options'' in
      case indexSnapshots (optChain opts ''indexes'') of
        Inl e \<Rightarrow> Inl e
      | Inr idxs \<Rightarrow>
     (case uniqueAsIndexes (optChain opts ''unique'') of
        Inl e \<Rightarrow> Inl e
      | Inr uniq \<Rightarrow>
     (let allIndexes = idxs @ uniq;
          sopts = snapshotOptions opts allIndexes
      in Inr ([(''name'', objGet schema ''name''),
               (''kind'', (if nullish (objGet schema ''kind'') then JStr ''object''
                           else objGet schema ''kind''))]
           @ (if properties \<noteq> [] then [(''properties'', JObj properties)] else [])
           @ (if truthy (objGet schema ''values'') then [(''values'', objGet schema ''values'')] else [])
           @ (if sopts \<noteq> [] then [(''options'', JObj sopts)] else []))))))"

text \<open>
  The loop \<^verbatim>\<open>snapshot[name] = {...}\<close> over the entries of the schemas; as with every
  assignment, the name \<^verbatim>\<open>__proto__\<close> adds no entry.
\<close>

fun schemasLoop :: "(string \<times> jsobj) list \<Rightarrow> (string \<times> jsobj) list \<Rightarrow> error + (string \<times> jsobj) list" where
  "schemasLoop [] snapshot = Inr snapshot"
| "schemasLoop ((name, schema) # rest) snapshot =
     (case schemaToSnapshot schema of
        Inl e \<Rightarrow> Inl e
      | Inr s \<Rightarrow>
          schemasLoop rest
            (if name = ''__proto__'' then snapshot else AList.update name s snapshot))"

definition schemasToSnapshot :: "(string \<times> jsobj) list \<Rightarrow> error + (string \<times> jsobj) list" where
  "schemasToSnapshot schemas = schemasLoop schemas []"

section \<open>Restoration: snapshots back to schema files\<close>

text \<open>\<^verbatim>\<open>if (prop.k !== undefined) result.k = prop.k\<close>\<close>

definition assignIfDefined :: "jsval \<Rightarrow> string \<Rightarrow> jsobj \<Rightarrow> jsobj" where
  "assignIfDefined prop k result =
     (if getProp prop k \<noteq> JUndefined then objSet result k (getProp prop k) else result)"

text \<open>\<^verbatim>\<open>if (prop.k !== undefined) result.k = [...prop.k]\<close>\<close>

definition assignSpreadIfDefined :: "jsval \<Rightarrow> string \<Rightarrow> jsobj \<Rightarrow> error + jsobj" where
  "assignSpreadIfDefined prop k result =
     (if getProp prop k \<noteq> JUndefined
      then (case spread (getProp prop k) of
              Inl e \<Rightarrow> Inl e
            | Inr xs \<Rightarrow> Inr (objSet result k (JArr xs)))
      else Inr result)"

text \<open>
  \<^verbatim>\<open>propertySnapshotToYaml\<close>: the assignments of the source in their order; the two
  that copy an array (\<^verbatim>\<open>enum\<close>, \<^verbatim>\<open>targets\<close>) can throw.
\<close>

definition propertySnapshotToYaml :: "jsval \<Rightarrow> error + jsobj" where
  "propertySnapshotToYaml prop =
     (if nullish prop then Inl TypeError
      else
        (let r0 = [(''type'', getProp prop ''type'')];
             r1 = fold (assignIfDefined prop)
                    [''displayName'', ''description'', ''nullable'', ''unique'', ''default'',
                     ''length'', ''unsigned'', ''precision'', ''scale''] r0
         in case assignSpreadIfDefined prop ''enum'' r1 of
              Inl e \<Rightarrow> Inl e
            | Inr r2 \<Rightarrow>
           (let r3 = fold (assignIfDefined prop) [''relation'', ''target''] r2
            in case assignSpreadIfDefined prop ''targets'' r3 of
                 Inl e \<Rightarrow> Inl e
               | Inr r4 \<Rightarrow>
                   Inr (fold (assignIfDefined prop)
                          [''morphName'', ''onDelete'', ''onUpdate'', ''mappedBy'',
                           ''inversedBy'', ''joinTable'', ''owning''] r4))))"

fun yamlPropertiesLoop :: "(string \<times> jsval) list \<Rightarrow> jsobj \<Rightarrow> error + jsobj" where
  "yamlPropertiesLoop [] properties = Inr properties"
| "yamlPropertiesLoop ((propName, prop) # rest) properties =
     (case propertySnapshotToYaml prop of
        Inl e \<Rightarrow> Inl e
      | Inr p \<Rightarrow> yamlPropertiesLoop rest (objSet properties propName (JObj p)))"

subsection \<open>Comparison with zero\<close>

text \<open>
  \<^verbatim>\<open>x > 0\<close> converts \<^verbatim>\<open>x\<close> to a number. For a string this is JavaScript's
  \<^verbatim>\<open>StringToNumber\<close>: white space is trimmed, the empty string is 0, and the rest
  must be a decimal literal (optional sign, \<^verbatim>\<open>Infinity\<close> or digits with an optional
  fraction and exponent) or an unsigned hexadecimal, octal or binary literal; anything
  else is \<^verbatim>\<open>NaN\<close>, which is not greater than zero. Only the sign of the result is
  needed here.
\<close>

definition isWhiteSpace :: "char \<Rightarrow> bool" where
  "isWhiteSpace c =
     (c \<in> set [CHR 0x09, CHR 0x0A, CHR 0x0B, CHR 0x0C, CHR 0x0D, CHR 0x20, CHR 0xA0])"

definition trimString :: "string \<Rightarrow> string" where
  "trimString s = rev (dropWhile isWhiteSpace (rev (dropWhile isWhiteSpace s)))"

definition isDecimalDigit :: "char \<Rightarrow> bool" where
  "isDecimalDigit c = (c \<in> set ''0123456789'')"

definition digitValue :: "char \<Rightarrow> int" where
  "digitValue c = of_char c - 48"

definition digitsValue :: "string \<Rightarrow> int" where
  "digitsValue ds = foldl (\<lambda>acc c. 10 * acc + digitValue c) 0 ds"

definition digitsOnly :: "string \<Rightarrow> bool" where
  "digitsOnly ds = (ds \<noteq> [] \<and> list_all isDecimalDigit ds)"

text \<open>The exponent part that ends a decimal literal; no exponent part counts as 0.\<close>

definition exponentOf :: "string \<Rightarrow> int option" where
  "exponentOf r =
     (case r of
        [] \<Rightarrow> Some 0
      | c # ds \<Rightarrow>
          if c = CHR ''e'' \<or> c = CHR ''E''
          then (case ds of
                  [] \<Rightarrow> None
                | d # ds' \<Rightarrow>
                    if d = CHR ''+'' then (if digitsOnly ds' then Some (digitsValue ds') else None)
                    else if d = CHR ''-''
                      then (if digitsOnly ds' then Some (- digitsValue ds') else None)
                    else (if digitsOnly ds then Some (digitsValue ds) else None))
          else None)"

text \<open>
  Whether the mantissa \<open>m\<close> times ten to the \<open>e\<close> is a positive number: it is not zero
  and it does not round to zero, that is, it exceeds half of the smallest positive
  number \<open>2\<^sup>-\<^sup>1\<^sup>0\<^sup>7\<^sup>4\<close>.
\<close>

definition scaledPositive :: "int \<Rightarrow> int \<Rightarrow> bool" where
  "scaledPositive m e = (0 < m \<and> (0 \<le> e \<or> 10 ^ nat (- e) < m * 2 ^ 1075))"

definition unsignedDecimalPositive :: "string \<Rightarrow> bool" where
  "unsignedDecimalPositive s =
     (if s = ''Infinity'' then True
      else
        (let ip = takeWhile isDecimalDigit s;
             r1 = dropWhile isDecimalDigit s;
             hasDot = (r1 \<noteq> [] \<and> hd r1 = CHR ''.'');
             fp = (if hasDot then takeWhile isDecimalDigit (tl r1) else []);
             r2 = (if hasDot then dropWhile isDecimalDigit (tl r1) else r1)
         in if ip = [] \<and> fp = [] then False
            else (case exponentOf r2 of
                    None \<Rightarrow> False
                  | Some e \<Rightarrow> scaledPositive (digitsValue (ip @ fp)) (e - int (length fp)))))"

definition decimalLiteralPositive :: "string \<Rightarrow> bool" where
  "decimalLiteralPositive s =
     (case s of
        [] \<Rightarrow> False
      | c # r \<Rightarrow>
          if c = CHR ''+'' then unsignedDecimalPositive r
          else if c = CHR ''-'' then False
          else unsignedDecimalPositive s)"

definition radixDigitsPositive :: "string \<Rightarrow> string \<Rightarrow> bool" where
  "radixDigitsPositive allowed ds =
     (ds \<noteq> [] \<and> list_all (\<lambda>c. c \<in> set allowed) ds \<and> list_ex (\<lambda>c. c \<noteq> CHR ''0'') ds)"

definition nonDecimalLiteralPositive :: "string \<Rightarrow> bool" where
  "nonDecimalLiteralPositive s =
     (case s of
        c0 # c1 # ds \<Rightarrow>
          c0 = CHR ''0''
          \<and> ((c1 = CHR ''x'' \<or> c1 = CHR ''X'') \<and> radixDigitsPositive ''0123456789abcdefABCDEF'' ds
             \<or> (c1 = CHR ''o'' \<or> c1 = CHR ''O'') \<and> radixDigitsPositive ''01234567'' ds
             \<or> (c1 = CHR ''b'' \<or> c1 = CHR ''B'') \<and> radixDigitsPositive ''01'' ds)
      | _ \<Rightarrow> False)"

definition numericStringPositive :: "string \<Rightarrow> bool" where
  "numericStringPositive s =
     (nonDecimalLiteralPositive (trimString s) \<or> decimalLiteralPositive (trimString s))"

text \<open>
  An object or array is first converted to a primitive. A plain object has the
  inherited \<^verbatim>\<open>valueOf\<close>, which returns the object itself, and \<^verbatim>\<open>toString\<close>, which
  returns \<^verbatim>\<open>[object Object]\<close>; an own entry \<^verbatim>\<open>toString\<close> (never a function in parsed
  data) hides the latter, and then the conversion throws. An array is joined with
  commas, each element converted to a string (\<^verbatim>\<open>null\<close> and \<^verbatim>\<open>undefined\<close> to the
  empty string), so it throws when an element does.
\<close>

fun toPrimitiveThrows :: "jsval \<Rightarrow> bool" where
  "toPrimitiveThrows (JObj kvs) = (''toString'' \<in> set (map fst kvs))"
| "toPrimitiveThrows (JArr xs) = list_ex toPrimitiveThrows xs"
| "toPrimitiveThrows v = False"

text \<open>
  Whether the string of a value (as the element of a joined array) is a positive
  number. A join of no element is empty, a join of two or more holds a comma.
\<close>

fun stringOfPositive :: "jsval \<Rightarrow> bool" where
  "stringOfPositive (JNum n) = (0 < n)"
| "stringOfPositive (JStr s) = numericStringPositive s"
| "stringOfPositive (JArr [x]) = stringOfPositive x"
| "stringOfPositive v = False"

definition greaterThanZero :: "jsval \<Rightarrow> error + bool" where
  "greaterThanZero v =
     (case v of
        JUndefined \<Rightarrow> Inr False
      | JNull \<Rightarrow> Inr False
      | JBool b \<Rightarrow> Inr b
      | JNum n \<Rightarrow> Inr (0 < n)
      | JStr s \<Rightarrow> Inr (numericStringPositive s)
      | _ \<Rightarrow> if toPrimitiveThrows v then Inl TypeError else Inr (stringOfPositive v))"

text \<open>
  \<^verbatim>\<open>v.length > 0\<close> for a truthy \<^verbatim>\<open>v\<close>. Arrays and strings have a length; a number
  or boolean has none, and \<^verbatim>\<open>undefined > 0\<close> is false; an object answers with its own
  \<^verbatim>\<open>length\<close> entry, compared with zero as above.
\<close>

fun lengthPositive :: "jsval \<Rightarrow> error + bool" where
  "lengthPositive (JArr xs) = Inr (xs \<noteq> [])"
| "lengthPositive (JStr s) = Inr (s \<noteq> [])"
| "lengthPositive (JObj kvs) = greaterThanZero (objGet kvs ''length'')"
| "lengthPositive v = Inr False"

text \<open>The callback of \<^verbatim>\<open>snapshot.options.indexes.map\<close>.\<close>

definition indexToYaml :: "jsval \<Rightarrow> error + jsval" where
  "indexToYaml idx =
     (if nullish idx then Inl TypeError
      else (case spread (getProp idx ''columns'') of
              Inl e \<Rightarrow> Inl e
            | Inr cols \<Rightarrow>
                Inr (JObj ([(''columns'', JArr cols)]
                  @ copyIfDefined idx ''unique''
                  @ copyIfDefined idx ''name''
                  @ copyIfDefined idx ''type''))))"

text \<open>\<^verbatim>\<open>v.map(f)\<close> on a value that is not nullish: only an array has the method.\<close>

definition arrayMap :: "(jsval \<Rightarrow> error + jsval) \<Rightarrow> jsval \<Rightarrow> error + jsval list" where
  "arrayMap f v = (case v of JArr xs \<Rightarrow> mapE f xs | _ \<Rightarrow> Inl TypeError)"

text \<open>The block \<^verbatim>\<open>if (snapshot.options) { const opts = {}; ... }\<close>, up to the indexes.\<close>

definition yamlOptions :: "jsval \<Rightarrow> error + jsobj" where
  "yamlOptions sopts =
     (let o0 = [];
          o1 = setWhen (getProp sopts ''id'' = JBool False) ''id'' (JBool False) o0;
          o2 = setWhen (truthy (getProp sopts ''idType'') \<and> getProp sopts ''idType'' \<noteq> JStr ''BigInt'')
                 ''idType'' (getProp sopts ''idType'') o1;
          o3 = setWhen (getProp sopts ''timestamps'' = JBool False) ''timestamps'' (JBool False) o2;
          o4 = setWhen (truthy (getProp sopts ''softDelete'')) ''softDelete'' (JBool True) o3;
          o5 = setWhen (truthy (getProp sopts ''tableName'')) ''tableName'' (getProp sopts ''tableName'') o4;
          o6 = setWhen (truthy (getProp sopts ''translations'')) ''translations'' (JBool True) o5;
          o7 = setWhen (truthy (getProp sopts ''authenticatable'')) ''authenticatable'' (JBool True) o6
      in case (if truthy (getProp sopts ''indexes'')
               then lengthPositive (getProp sopts ''indexes'') else Inr False) of
           Inl e \<Rightarrow> Inl e
         | Inr positive \<Rightarrow>
             if positive
             then (case arrayMap indexToYaml (getProp sopts ''indexes'') of
                     Inl e \<Rightarrow> Inl e
                   | Inr idxs \<Rightarrow> Inr (objSet o7 ''indexes'' (JArr idxs)))
             else Inr o7)"

text \<open>\<^verbatim>\<open>if (snapshot.k) result.k = snapshot.k\<close>\<close>

definition assignIfTruthy :: "jsobj \<Rightarrow> string \<Rightarrow> jsobj \<Rightarrow> jsobj" where
  "assignIfTruthy snapshot k result =
     (if truthy (objGet snapshot k) then objSet result k (objGet snapshot k) else result)"

text \<open>
  \<^verbatim>\<open>snapshotToYaml\<close>: the schema object that is written to the file. The kind is
  written for \<^verbatim>\<open>enum\<close> only.
\<close>

definition snapshotToYaml :: "jsobj \<Rightarrow> error + jsobj" where
  "snapshotToYaml snapshot =
     (let r0 = [];
          r1 = setWhen (objGet snapshot ''kind'' = JStr ''enum'') ''kind'' (JStr ''enum'') r0;
          r2 = fold (assignIfTruthy snapshot)
                 [''displayName'', ''singular'', ''plural'', ''titleIndex'', ''group''] r1
      in case (if truthy (objGet snapshot ''properties'')
                  \<and> objectEntries (objGet snapshot ''properties'') \<noteq> []
               then (case yamlPropertiesLoop (objectEntries (objGet snapshot ''properties'')) [] of
                       Inl e \<Rightarrow> Inl e
                     | Inr properties \<Rightarrow> Inr (objSet r2 ''properties'' (JObj properties)))
               else Inr r2) of
           Inl e \<Rightarrow> Inl e
         | Inr r3 \<Rightarrow>
        (case (case (if truthy (objGet snapshot ''values'')
                     then lengthPositive (objGet snapshot ''values'') else Inr False) of
                 Inl e \<Rightarrow> Inl e
               | Inr positive \<Rightarrow>
                   if positive
                   then (case spread (objGet snapshot ''values'') of
                           Inl e \<Rightarrow> Inl e
                         | Inr vs \<Rightarrow> Inr (objSet r3 ''values'' (JArr vs)))
                   else Inr r3) of
           Inl e \<Rightarrow> Inl e
         | Inr r4 \<Rightarrow>
        (if truthy (objGet snapshot ''options'')
         then (case yamlOptions (objGet snapshot ''options'') of
                 Inl e \<Rightarrow> Inl e
               | Inr opts \<Rightarrow>
                   Inr (setWhen (opts \<noteq> []) ''options'' (JObj opts) r4))
         else Inr r4)))"

section \<open>The version service\<close>

text \<open>
  A stored version, as far as the service reads it. The version store, its diff engine
  and the schema loader belong to the package \<^verbatim>\<open>@famgia/omnify-core\<close>, and the
  serialiser to the package \<^verbatim>\<open>yaml\<close>: the service calls them, and the model takes
  them as parameters. The value of type \<^typ>\<open>'st\<close> stands for the store together with
  the versions it has persisted.
\<close>

type_synonym snapshots = "(string \<times> jsobj) list"

record versionFile =
  version :: int
  migration :: "string option"
  changes :: "jsobj list"
  snapshot :: snapshots

record versionMetadata =
  metaDriver :: string
  metaMigration :: string
  metaDescription :: "string option"

record 'st collaborators =
  createVersionStore :: "string \<Rightarrow> nat \<Rightarrow> 'st"
  store_listVersions :: "'st \<Rightarrow> jsval list"
  store_readVersion :: "'st \<Rightarrow> int \<Rightarrow> versionFile option"
  store_readLatestVersion :: "'st \<Rightarrow> versionFile option"
  store_diffVersions :: "'st \<Rightarrow> int \<Rightarrow> int \<Rightarrow> jsval option"
  store_computeSnapshotDiff :: "'st \<Rightarrow> snapshots \<Rightarrow> snapshots \<Rightarrow> jsobj list"
  store_createVersion ::
    "'st \<Rightarrow> snapshots \<Rightarrow> jsobj list \<Rightarrow> versionMetadata \<Rightarrow> (error + versionFile) \<times> 'st"
  loadSchemas :: "string \<Rightarrow> (string \<times> string) list \<Rightarrow> error + (string \<times> jsobj) list"
  stringify :: "jsobj \<Rightarrow> string"
  isoNow :: string

text \<open>
  The two module variables \<^verbatim>\<open>store\<close> and \<^verbatim>\<open>schemasDir\<close> (both \<^verbatim>\<open>null\<close> at load
  time), and the files of the schemas directory: file name and content, each name once.
  Reading the directory, writing and removing a file are taken to succeed.
\<close>

record 'st world =
  store :: "'st option"
  schemasDir :: "string option"
  files :: "(string \<times> string) list"

definition initialWorld :: "(string \<times> string) list \<Rightarrow> 'st world" where
  "initialWorld fs = \<lparr>store = None, schemasDir = None, files = fs\<rparr>"

definition initVersionStore :: "'st collaborators \<Rightarrow> string \<Rightarrow> string \<Rightarrow> 'st world \<Rightarrow> 'st world" where
  "initVersionStore env baseDir schemasDirPath w =
     w\<lparr>store := Some (createVersionStore env baseDir 100), schemasDir := Some schemasDirPath\<rparr>"

definition getStore :: "'st world \<Rightarrow> error + 'st" where
  "getStore w = (case store w of None \<Rightarrow> Inl StoreNotInitialized | Some st \<Rightarrow> Inr st)"

text \<open>\<^verbatim>\<open>if (!schemasDir) throw ...\<close>: \<^verbatim>\<open>null\<close> and the empty string are both falsy.\<close>

definition checkSchemasDir :: "'st world \<Rightarrow> error + string" where
  "checkSchemasDir w =
     (case schemasDir w of
        None \<Rightarrow> Inl SchemasDirNotInitialized
      | Some dir \<Rightarrow> if dir = [] then Inl SchemasDirNotInitialized else Inr dir)"

definition listVersions :: "'st collaborators \<Rightarrow> 'st world \<Rightarrow> error + jsval list" where
  "listVersions env w =
     (case getStore w of Inl e \<Rightarrow> Inl e | Inr st \<Rightarrow> Inr (store_listVersions env st))"

definition getVersion :: "'st collaborators \<Rightarrow> int \<Rightarrow> 'st world \<Rightarrow> error + versionFile option" where
  "getVersion env n w =
     (case getStore w of Inl e \<Rightarrow> Inl e | Inr st \<Rightarrow> Inr (store_readVersion env st n))"

definition getLatestVersion :: "'st collaborators \<Rightarrow> 'st world \<Rightarrow> error + versionFile option" where
  "getLatestVersion env w =
     (case getStore w of Inl e \<Rightarrow> Inl e | Inr st \<Rightarrow> Inr (store_readLatestVersion env st))"

definition diffVersions :: "'st collaborators \<Rightarrow> int \<Rightarrow> int \<Rightarrow> 'st world \<Rightarrow> error + jsval option" where
  "diffVersions env fromVersion toVersion w =
     (case getStore w of
        Inl e \<Rightarrow> Inl e
      | Inr st \<Rightarrow> Inr (store_diffVersions env st fromVersion toVersion))"

text \<open>\<^verbatim>\<open>{ action: 'schema_added', schema: name }\<close>\<close>

definition schemaAdded :: "string \<Rightarrow> jsobj" where
  "schemaAdded name = [(''action'', JStr ''schema_added''), (''schema'', JStr name)]"

record createVersionResult =
  createdVersion :: int
  createdMigration :: string
  createdChanges :: "jsobj list"

text \<open>
  \<^verbatim>\<open>createVersion\<close>. The result is paired with the world after the call, so that a
  failure shows what it left behind. The migration name is the ISO time of the call
  without \<^verbatim>\<open>-\<close>, \<^verbatim>\<open>:\<close> and \<^verbatim>\<open>T\<close>, cut to 14 characters.
\<close>

definition createVersion ::
  "'st collaborators \<Rightarrow> string option \<Rightarrow> 'st world \<Rightarrow> (error + createVersionResult) \<times> 'st world" where
  "createVersion env description w =
     (case checkSchemasDir w of
        Inl e \<Rightarrow> (Inl e, w)
      | Inr dir \<Rightarrow>
     (case getStore w of
        Inl e \<Rightarrow> (Inl e, w)
      | Inr storeInstance \<Rightarrow>
     (case loadSchemas env dir (files w) of
        Inl e \<Rightarrow> (Inl e, w)
      | Inr currentSchemas \<Rightarrow>
     (case schemasToSnapshot currentSchemas of
        Inl e \<Rightarrow> (Inl e, w)
      | Inr currentSnapshot \<Rightarrow>
     (let latest = store_readLatestVersion env storeInstance;
          chs = (case latest of
                   None \<Rightarrow> map schemaAdded (map fst currentSnapshot)
                 | Some lv \<Rightarrow>
                     store_computeSnapshotDiff env storeInstance (snapshot lv) currentSnapshot)
      in if chs = [] then (Inl NoChangesToCreateVersion, w)
         else
           (let timestamp = take 14 (filter (\<lambda>c. c \<notin> set ''-:T'') (isoNow env));
                mig = timestamp @ ''_omnify_migration''
            in case store_createVersion env storeInstance currentSnapshot chs
                      \<lparr>metaDriver = ''mysql'', metaMigration = mig,
                       metaDescription = description\<rparr> of
                 (Inl e, st') \<Rightarrow> (Inl e, w\<lparr>store := Some st'\<rparr>)
               | (Inr vf, st') \<Rightarrow>
                   (Inr \<lparr>createdVersion = version vf,
                         createdMigration = (case migration vf of None \<Rightarrow> mig | Some m \<Rightarrow> m),
                         createdChanges = changes vf\<rparr>,
                    w\<lparr>store := Some st'\<rparr>)))))))"

record pendingChangesResult =
  hasChanges :: bool
  pendingChanges :: "jsobj list"
  currentSchemaCount :: nat
  previousSchemaCount :: nat
  latestVersion :: "int option"

definition getPendingChanges :: "'st collaborators \<Rightarrow> 'st world \<Rightarrow> error + pendingChangesResult" where
  "getPendingChanges env w =
     (case checkSchemasDir w of
        Inl e \<Rightarrow> Inl e
      | Inr dir \<Rightarrow>
     (case getStore w of
        Inl e \<Rightarrow> Inl e
      | Inr storeInstance \<Rightarrow>
     (case loadSchemas env dir (files w) of
        Inl e \<Rightarrow> Inl e
      | Inr currentSchemas \<Rightarrow>
     (case schemasToSnapshot currentSchemas of
        Inl e \<Rightarrow> Inl e
      | Inr currentSnapshot \<Rightarrow>
     (case store_readLatestVersion env storeInstance of
        None \<Rightarrow>
          (let chs = map schemaAdded (map fst currentSnapshot)
           in Inr \<lparr>hasChanges = (chs \<noteq> []),
                   pendingChanges = chs,
                   currentSchemaCount = length currentSnapshot,
                   previousSchemaCount = 0,
                   latestVersion = None\<rparr>)
      | Some lv \<Rightarrow>
          (let chs = store_computeSnapshotDiff env storeInstance (snapshot lv) currentSnapshot
           in Inr \<lparr>hasChanges = (chs \<noteq> []),
                   pendingChanges = chs,
                   currentSchemaCount = length currentSnapshot,
                   previousSchemaCount = length (snapshot lv),
                   latestVersion = Some (version lv)\<rparr>))))))"

subsection \<open>Discarding changes\<close>

definition endsWith :: "string \<Rightarrow> string \<Rightarrow> bool" where
  "endsWith f suffix =
     (length suffix \<le> length f \<and> drop (length f - length suffix) f = suffix)"

text \<open>\<^verbatim>\<open>f.replace(/\.ya?ml$/, '')\<close>: the extension at the very end is cut off, if there is one.\<close>

definition stripYamlExtension :: "string \<Rightarrow> string" where
  "stripYamlExtension f =
     (if endsWith f ''.yaml'' then take (length f - 5) f
      else if endsWith f ''.yml'' then take (length f - 4) f
      else f)"

text \<open>The filter on the directory listing: \<^verbatim>\<open>f.endsWith('.yaml') || f.endsWith('.yml')\<close>.\<close>

definition isYamlFile :: "string \<Rightarrow> bool" where
  "isYamlFile f = (endsWith f ''.yaml'' \<or> endsWith f ''.yml'')"

definition writeFile :: "string \<Rightarrow> string \<Rightarrow> (string \<times> string) list \<Rightarrow> (string \<times> string) list" where
  "writeFile path content fs = AList.update path content fs"

definition unlink :: "string \<Rightarrow> (string \<times> string) list \<Rightarrow> (string \<times> string) list" where
  "unlink path fs = AList.delete path fs"

definition readdir :: "(string \<times> string) list \<Rightarrow> string list" where
  "readdir fs = map fst fs"

text \<open>
  The first loop: every schema of the snapshot is written to \<^verbatim>\<open><name>.yaml\<close>. An
  exception of \<^verbatim>\<open>snapshotToYaml\<close> leaves the files written so far.
\<close>

fun restoreLoop ::
  "(jsobj \<Rightarrow> string) \<Rightarrow> snapshots \<Rightarrow> (string \<times> string) list \<Rightarrow> nat
     \<Rightarrow> (error + nat) \<times> (string \<times> string) list" where
  "restoreLoop str [] fs restored = (Inr restored, fs)"
| "restoreLoop str ((name, schemaSnapshot) # rest) fs restored =
     (case snapshotToYaml schemaSnapshot of
        Inl e \<Rightarrow> (Inl e, fs)
      | Inr yamlData \<Rightarrow>
          restoreLoop str rest (writeFile (name @ ''.yaml'') (str yamlData) fs) (restored + 1))"

text \<open>The second loop: the listed schema files whose base name the snapshot lacks are removed.\<close>

fun deleteLoop ::
  "string list \<Rightarrow> string list \<Rightarrow> (string \<times> string) list \<Rightarrow> nat \<Rightarrow> nat \<times> (string \<times> string) list" where
  "deleteLoop names [] fs deleted = (deleted, fs)"
| "deleteLoop names (file # rest) fs deleted =
     (if stripYamlExtension file \<notin> set names
      then deleteLoop names rest (unlink file fs) (deleted + 1)
      else deleteLoop names rest fs deleted)"

record discardChangesResult =
  restored :: nat
  deleted :: nat

definition discardChanges ::
  "'st collaborators \<Rightarrow> 'st world \<Rightarrow> (error + discardChangesResult) \<times> 'st world" where
  "discardChanges env w =
     (case checkSchemasDir w of
        Inl e \<Rightarrow> (Inl e, w)
      | Inr dir \<Rightarrow>
     (case getStore w of
        Inl e \<Rightarrow> (Inl e, w)
      | Inr storeInstance \<Rightarrow>
     (case store_readLatestVersion env storeInstance of
        None \<Rightarrow> (Inl NoVersionToRestoreFrom, w)
      | Some lv \<Rightarrow>
     (let snap = snapshot lv;
          snapshotSchemaNames = map fst snap;
          currentFiles = readdir (files w);
          yamlFiles = filter isYamlFile currentFiles
      in case restoreLoop (stringify env) snap (files w) 0 of
           (Inl e, fs1) \<Rightarrow> (Inl e, w\<lparr>files := fs1\<rparr>)
         | (Inr n, fs1) \<Rightarrow>
             (case deleteLoop snapshotSchemaNames yamlFiles fs1 0 of
                (d, fs2) \<Rightarrow> (Inr \<lparr>restored = n, deleted = d\<rparr>, w\<lparr>files := fs2\<rparr>))))))"

section \<open>Vocabulary of the properties\<close>

text \<open>The optional attributes of a property snapshot, as the data model lists them.\<close>

definition optionalAttributes :: "string list" where
  "optionalAttributes =
     [''displayName'', ''description'', ''nullable'', ''unique'', ''default'', ''length'',
      ''unsigned'', ''precision'', ''scale'', ''enum'', ''relation'', ''target'', ''targets'',
      ''morphName'', ''onDelete'', ''onUpdate'', ''mappedBy'', ''inversedBy'', ''joinTable'',
      ''owning'']"

text \<open>The options that have a documented default, and that default.\<close>

definition elidedOptionKeys :: "string list" where
  "elidedOptionKeys =
     [''id'', ''idType'', ''timestamps'', ''softDelete'', ''translations'', ''authenticatable'']"

definition documentedDefault :: "string \<Rightarrow> jsval" where
  "documentedDefault k =
     (if k = ''id'' then JBool True
      else if k = ''idType'' then JStr ''BigInt''
      else if k = ''timestamps'' then JBool True
      else JBool False)"

text \<open>The options map of a schema snapshot; it is empty when the snapshot has none.\<close>

definition optionsOf :: "jsobj \<Rightarrow> jsobj" where
  "optionsOf s = objectEntries (objGet s ''options'')"

text \<open>An options object that holds documented defaults only.\<close>

definition onlyDefaults :: "jsval \<Rightarrow> bool" where
  "onlyDefaults opts =
     (case opts of
        JObj kvs \<Rightarrow> list_all (\<lambda>(k, v). k \<in> set elidedOptionKeys \<and> v = documentedDefault k) kvs
      | _ \<Rightarrow> False)"



text \<open>
  A fixed set of collaborators for worked examples: a loader that answers \<open>schemas\<close>,
  a store whose latest version is \<open>latest\<close>, a diff that reports the schema names new
  in the second snapshot, and a serialiser that prints the top-level keys.
\<close>

definition exampleCollaborators ::
  "(string \<times> jsobj) list \<Rightarrow> versionFile option \<Rightarrow> unit collaborators" where
  "exampleCollaborators schemas latest =
     \<lparr>createVersionStore = (\<lambda>baseDir maxVersions. ()),
      store_listVersions = (\<lambda>st. []),
      store_readVersion = (\<lambda>st n. None),
      store_readLatestVersion = (\<lambda>st. latest),
      store_diffVersions = (\<lambda>st a b. None),
      store_computeSnapshotDiff =
        (\<lambda>st before after.
           map schemaAdded (filter (\<lambda>n. n \<notin> set (map fst before)) (map fst after))),
      store_createVersion =
        (\<lambda>st snap chs meta.
           (Inr \<lparr>version = 1, migration = Some (metaMigration meta), changes = chs,
                 snapshot = snap\<rparr>, st)),
      loadSchemas = (\<lambda>dir fs. Inr schemas),
      stringify = (\<lambda>obj. concat (map fst obj)),
      isoNow = ''2024-05-06T07:08:09.123Z''\<rparr>"

definition exampleWorld :: "(string \<times> string) list \<Rightarrow> unit world" where
  "exampleWorld fs = \<lparr>store = Some (), schemasDir = Some ''schemas'', files = fs\<rparr>"

text \<open>
  Modelled from the spec: the schema loader, which is not part of this repository. For
  the file \<^verbatim>\<open><name>.yaml\<close> it hands the parsed document to the normaliser, with the
  schema name taken from the file name; parsing is taken to invert the serialiser.
\<close>

definition parsedSchemaFile :: "string \<Rightarrow> jsobj \<Rightarrow> jsobj" where
  "parsedSchemaFile name yamlData = (''name'', JStr name) # yamlData"

definition exampleUser :: jsobj where
  "exampleUser =
     [(''name'', JStr ''User''), (''kind'', JStr ''object''),
      (''properties'', JObj [(''email'', JObj [(''type'', JStr ''Email'')])])]"

definition exampleVersion :: versionFile where
  "exampleVersion =
     \<lparr>version = 1, migration = None, changes = [schemaAdded ''User''],
      snapshot = [(''User'', exampleUser)]\<rparr>"

definition exampleLegacy :: jsobj where
  "exampleLegacy =
     [(''name'', JStr ''User''), (''kind'', JStr ''object''),
      (''options'', JObj [(''indexes'', JArr [JObj [(''columns'', JUndefined)]])])]"

definition exampleFiles :: "(string \<times> string) list" where
  "exampleFiles =
     [(''User.yaml'', ''old''), (''Post.yaml'', ''p''), (''Tag.yml'', ''t''), (''notes.txt'', ''n'')]"

definition examplePivot :: jsobj where
  "examplePivot =
     [(''name'', JStr ''RoleUser''), (''kind'', JStr ''pivot''),
      (''properties'', JObj [(''level'', JObj [(''type'', JStr ''Int'')])])]"

section \<open>Evaluation of worked examples\<close>

lemmas normalise_defs =
  schemasToSnapshot_def schemaToSnapshot_def snapshotOptions_def indexSnapshots_def
  uniqueAsIndexes_def optChain_def objGet_def objSet_def setWhen_def propertyToSnapshot_def
  copyIfDefined_def
  indexToSnapshot_def uniqueAsIndex_def

lemmas example_defs = exampleCollaborators_def exampleWorld_def

lemmas restore_defs =
  snapshotToYaml_def yamlOptions_def propertySnapshotToYaml_def assignIfDefined_def
  assignSpreadIfDefined_def assignIfTruthy_def indexToYaml_def arrayMap_def

lemmas discard_defs =
  discardChanges_def checkSchemasDir_def getStore_def readdir_def writeFile_def unlink_def
  isYamlFile_def endsWith_def stripYamlExtension_def

lemma snapshotToYaml_exampleUser:
  "snapshotToYaml exampleUser =
     Inr [(''properties'', JObj [(''email'', JObj [(''type'', JStr ''Email'')])])]"
  by (simp add: restore_defs setWhen_def objSet_def objGet_def exampleUser_def)

section \<open>Keys of a normalised collection\<close>

lemma update_fresh_append:
  "k \<notin> fst ` set al \<Longrightarrow> AList.update k v al = al @ [(k, v)]"
  by (induction al) auto

lemma schemasLoop_keys:
  "schemasLoop xs acc = Inr r \<Longrightarrow> distinct (map fst acc @ map fst xs)
     \<Longrightarrow> ''__proto__'' \<notin> set (map fst xs)
     \<Longrightarrow> map fst r = map fst acc @ map fst xs"
proof (induction xs arbitrary: acc)
  case Nil
  then show ?case by simp
next
  case (Cons x xs)
  obtain name schema where x: "x = (name, schema)" by (cases x)
  from Cons.prems(3) x have plain: "name \<noteq> ''__proto__''"
    and rest: "''__proto__'' \<notin> set (map fst xs)" by auto
  from Cons.prems(1) x plain obtain s where
    s: "schemaToSnapshot schema = Inr s" and
    loop: "schemasLoop xs (AList.update name s acc) = Inr r"
    by (auto split: sum.splits)
  from Cons.prems(2) x have fresh: "name \<notin> fst ` set acc" by auto
  then have upd: "AList.update name s acc = acc @ [(name, s)]"
    by (rule update_fresh_append)
  from Cons.prems(2) x have "distinct (map fst (acc @ [(name, s)]) @ map fst xs)" by auto
  with Cons.IH [OF loop [unfolded upd] _ rest]
  have "map fst r = map fst (acc @ [(name, s)]) @ map fst xs"
    by blast
  with x show ?case by simp
qed

lemma schemasToSnapshot_keys:
  "schemasToSnapshot schemas = Inr cur \<Longrightarrow> distinct (map fst schemas)
     \<Longrightarrow> ''__proto__'' \<notin> set (map fst schemas)
     \<Longrightarrow> map fst cur = map fst schemas"
  using schemasLoop_keys [of schemas "[]" cur] by (simp add: schemasToSnapshot_def)

section \<open>Pending changes and version creation\<close>

text \<open>
  C4. With the store and the schemas directory initialised and no latest version in the
  store, \<^verbatim>\<open>getPendingChanges\<close> answers one change per current schema, in their
  order: the record with \<^verbatim>\<open>action\<close> \<^verbatim>\<open>schema_added\<close> and \<^verbatim>\<open>schema\<close> the name of
  that schema, and nothing else. \<^verbatim>\<open>previousSchemaCount\<close> is 0, \<^verbatim>\<open>latestVersion\<close> is
  \<^verbatim>\<open>null\<close>, and \<^verbatim>\<open>hasChanges\<close> is true exactly when there is a current schema.
  The current schemas are what the loader returns: an object, so each name once, and
  no schema is named \<^verbatim>\<open>__proto__\<close>; their normalisation is assumed not to throw.
\<close>

theorem getPendingChanges_without_latest:
  assumes "store w = Some st" and "schemasDir w = Some dir" and "dir \<noteq> []"
    and "loadSchemas env dir (files w) = Inr schemas"
    and "distinct (map fst schemas)"
    and "''__proto__'' \<notin> set (map fst schemas)"
    and "schemasToSnapshot schemas = Inr cur"
    and "store_readLatestVersion env st = None"
  shows "getPendingChanges env w =
           Inr \<lparr>hasChanges = (schemas \<noteq> []),
                pendingChanges =
                  map (\<lambda>name. [(''action'', JStr ''schema_added''), (''schema'', JStr name)])
                    (map fst schemas),
                currentSchemaCount = length schemas,
                previousSchemaCount = 0,
                latestVersion = None\<rparr>"
proof -
  from assms(5-7) have keys: "map fst cur = map fst schemas"
    by (simp add: schemasToSnapshot_keys)
  then have len: "length cur = length schemas"
    by (metis length_map)
  have added: "schemaAdded = (\<lambda>name. [(''action'', JStr ''schema_added''), (''schema'', JStr name)])"
    by (rule ext) (simp add: schemaAdded_def)
  from assms keys len show ?thesis
    by (simp add: getPendingChanges_def checkSchemasDir_def getStore_def added)
qed

theorem getPendingChanges_without_latest_witness:
  "getPendingChanges
     (exampleCollaborators
        [(''User'', [(''name'', JStr ''User'')]),
         (''Role'', [(''name'', JStr ''Role''), (''kind'', JStr ''enum''),
                     (''values'', JArr [JStr ''admin''])])] None)
     (exampleWorld []) =
   Inr \<lparr>hasChanges = True,
        pendingChanges =
          [ [(''action'', JStr ''schema_added''), (''schema'', JStr ''User'')],
            [(''action'', JStr ''schema_added''), (''schema'', JStr ''Role'')] ],
        currentSchemaCount = 2,
        previousSchemaCount = 0,
        latestVersion = None\<rparr>"
proof -
  let ?schemas = "[(''User'', [(''name'', JStr ''User'')]),
         (''Role'', [(''name'', JStr ''Role''), (''kind'', JStr ''enum''),
                     (''values'', JArr [JStr ''admin''])])]"
  let ?cur = "[(''User'', [(''name'', JStr ''User''), (''kind'', JStr ''object'')]),
         (''Role'', [(''name'', JStr ''Role''), (''kind'', JStr ''enum''),
                     (''values'', JArr [JStr ''admin''])])]"
  have norm: "schemasToSnapshot ?schemas = Inr ?cur"
    by (simp add: normalise_defs)
  show ?thesis
    using getPendingChanges_without_latest
      [of "exampleWorld []" "()" "''schemas''" "exampleCollaborators ?schemas None" ?schemas ?cur]
      norm
    by (simp add: example_defs)
qed

text \<open>
  C9. With the store and the schemas directory initialised, no version in the store and
  no current schema, \<^verbatim>\<open>getPendingChanges\<close> returns a result, not an error:
  \<^verbatim>\<open>hasChanges = false\<close>, no changes, both counts zero and \<^verbatim>\<open>latestVersion = null\<close>.
\<close>

theorem getPendingChanges_empty_project:
  assumes "store w = Some st" and "schemasDir w = Some dir" and "dir \<noteq> []"
    and "loadSchemas env dir (files w) = Inr []"
    and "store_readLatestVersion env st = None"
  shows "getPendingChanges env w =
           Inr \<lparr>hasChanges = False,
                pendingChanges = [],
                currentSchemaCount = 0,
                previousSchemaCount = 0,
                latestVersion = None\<rparr>"
  using assms
  by (simp add: getPendingChanges_def checkSchemasDir_def getStore_def schemasToSnapshot_def)

theorem getPendingChanges_empty_project_witness:
  "getPendingChanges (exampleCollaborators [] None) (exampleWorld []) =
     Inr \<lparr>hasChanges = False,
          pendingChanges = [],
          currentSchemaCount = 0,
          previousSchemaCount = 0,
          latestVersion = None\<rparr>"
  using getPendingChanges_empty_project
    [of "exampleWorld []" "()" "''schemas''" "exampleCollaborators [] None"]
  by (simp add: example_defs)

text \<open>
  C3. With the store and the schemas directory initialised and the current schemas
  loaded and normalised, \<^verbatim>\<open>createVersion\<close> fails with "No changes to create version"
  and leaves the world (the store with its versions, the files) as it was, whenever the
  change list it computes is empty. Two cases of that: the store has no version and
  there is no current schema; the current snapshot equals the snapshot of the latest
  version and the diff engine of the store finds nothing between a snapshot and itself.
\<close>

theorem createVersion_without_changes:
  assumes "store w = Some st" and "schemasDir w = Some dir" and "dir \<noteq> []"
    and "loadSchemas env dir (files w) = Inr schemas"
    and "schemasToSnapshot schemas = Inr cur"
  shows "((case store_readLatestVersion env st of
             None \<Rightarrow> map schemaAdded (map fst cur)
           | Some lv \<Rightarrow> store_computeSnapshotDiff env st (snapshot lv) cur) = []
          \<longrightarrow> createVersion env description w = (Inl NoChangesToCreateVersion, w))
       \<and> (store_readLatestVersion env st = None \<and> schemas = []
          \<longrightarrow> createVersion env description w = (Inl NoChangesToCreateVersion, w))
       \<and> ((\<exists>lv. store_readLatestVersion env st = Some lv \<and> snapshot lv = cur)
            \<and> store_computeSnapshotDiff env st cur cur = []
          \<longrightarrow> createVersion env description w = (Inl NoChangesToCreateVersion, w))"
  using assms
  by (auto simp add: createVersion_def checkSchemasDir_def getStore_def schemasToSnapshot_def)

theorem createVersion_without_changes_witness:
  "createVersion (exampleCollaborators [] None) None (exampleWorld [])
     = (Inl NoChangesToCreateVersion, exampleWorld [])
   \<and> createVersion
       (exampleCollaborators [(''User'', [(''name'', JStr ''User'')])]
          (Some \<lparr>version = 1, migration = None, changes = [schemaAdded ''User''],
                 snapshot = [(''User'', [(''name'', JStr ''User''), (''kind'', JStr ''object'')])]\<rparr>))
       (Some ''again'') (exampleWorld [(''User.yaml'', ''name'')])
     = (Inl NoChangesToCreateVersion, exampleWorld [(''User.yaml'', ''name'')])"
proof -
  let ?schemas = "[(''User'', [(''name'', JStr ''User'')])]"
  let ?cur = "[(''User'', [(''name'', JStr ''User''), (''kind'', JStr ''object'')])]"
  let ?lv = "\<lparr>version = 1, migration = None, changes = [schemaAdded ''User''], snapshot = ?cur\<rparr>"
  have norm: "schemasToSnapshot ?schemas = Inr ?cur"
    by (simp add: normalise_defs)
  have empty: "schemasToSnapshot [] = Inr []"
    by (simp add: schemasToSnapshot_def)
  show ?thesis
    using createVersion_without_changes
        [of "exampleWorld []" "()" "''schemas''" "exampleCollaborators [] None" "[]" "[]" None]
      createVersion_without_changes
        [of "exampleWorld [(''User.yaml'', ''name'')]" "()" "''schemas''"
            "exampleCollaborators ?schemas (Some ?lv)" ?schemas ?cur "Some ''again''"]
      norm empty
    by (simp add: example_defs)
qed

section \<open>Calls before initialisation\<close>

text \<open>
  C8. In the world before \<^verbatim>\<open>initVersionStore\<close> (both module variables \<^verbatim>\<open>null\<close>)
  each of the seven exported operations fails: the four store queries because the store
  is not initialised, the three others because the schemas directory is not. The
  outcome is the same for every behaviour of the store, the loader and the file system,
  and \<^verbatim>\<open>createVersion\<close> and \<^verbatim>\<open>discardChanges\<close> leave the world as it was: nothing of
  the store or of the files is consulted or changed.
\<close>

theorem operations_fail_before_init:
  "listVersions env (initialWorld fs) = Inl StoreNotInitialized
   \<and> getVersion env n (initialWorld fs) = Inl StoreNotInitialized
   \<and> getLatestVersion env (initialWorld fs) = Inl StoreNotInitialized
   \<and> diffVersions env a b (initialWorld fs) = Inl StoreNotInitialized
   \<and> getPendingChanges env (initialWorld fs) = Inl SchemasDirNotInitialized
   \<and> createVersion env d (initialWorld fs) = (Inl SchemasDirNotInitialized, initialWorld fs)
   \<and> discardChanges env (initialWorld fs) = (Inl SchemasDirNotInitialized, initialWorld fs)"
  by (simp add: listVersions_def getVersion_def getLatestVersion_def diffVersions_def
      getPendingChanges_def createVersion_def discardChanges_def
      getStore_def checkSchemasDir_def initialWorld_def)

theorem operations_fail_before_init_witness:
  "listVersions (exampleCollaborators [] None) (initialWorld [(''User.yaml'', ''name'')])
     = Inl StoreNotInitialized
   \<and> discardChanges (exampleCollaborators [] None) (initialWorld [(''User.yaml'', ''name'')])
     = (Inl SchemasDirNotInitialized, initialWorld [(''User.yaml'', ''name'')])"
  using operations_fail_before_init
    [of "exampleCollaborators [] None" "[(''User.yaml'', ''name'')]"]
  by simp

section \<open>Normalisation of a property\<close>

lemma copyIfDefined_map_of:
  "map_of (concat (map (copyIfDefined v) ks)) k =
     (if k \<in> set ks \<and> getProp v k \<noteq> JUndefined then Some (getProp v k) else None)"
  by (induction ks) (auto simp add: copyIfDefined_def)

lemma copyIfDefined_keys:
  "map fst (concat (map (copyIfDefined v) ks)) = filter (\<lambda>k. getProp v k \<noteq> JUndefined) ks"
  by (induction ks) (auto simp add: copyIfDefined_def)

lemma distinct_optionalAttributes: "distinct optionalAttributes"
  by (simp add: optionalAttributes_def)

lemma type_not_optional: "''type'' \<notin> set optionalAttributes"
  by (simp add: optionalAttributes_def)

lemma propertyToSnapshot_concat:
  "\<not> nullish prop \<Longrightarrow> propertyToSnapshot prop =
     Inr ((''type'', getProp prop ''type'') # concat (map (copyIfDefined prop) optionalAttributes))"
  by (simp add: propertyToSnapshot_def optionalAttributes_def)

text \<open>
  C6. For a raw property (a record), \<^verbatim>\<open>propertyToSnapshot\<close> returns a snapshot with
  each key once, in which \<^verbatim>\<open>type\<close> is the input's \<^verbatim>\<open>type\<close>, an optional attribute of
  the documented set is present exactly when the input's value for it is not
  \<^verbatim>\<open>undefined\<close> and then holds that value, and no other key is present.
\<close>

theorem propertyToSnapshot_attributes:
  "\<exists>out. propertyToSnapshot (JObj prop) = Inr out
     \<and> distinct (map fst out)
     \<and> (\<forall>k. map_of out k =
          (if k = ''type'' then Some (objGet prop ''type'')
           else if k \<in> set optionalAttributes \<and> objGet prop k \<noteq> JUndefined
             then Some (objGet prop k)
           else None))"
proof -
  let ?out = "(''type'', getProp (JObj prop) ''type'')
                # concat (map (copyIfDefined (JObj prop)) optionalAttributes)"
  have "propertyToSnapshot (JObj prop) = Inr ?out"
    by (rule propertyToSnapshot_concat) simp
  moreover have "distinct (map fst ?out)"
    using distinct_optionalAttributes type_not_optional
    by (simp add: copyIfDefined_keys)
  moreover have "\<forall>k. map_of ?out k =
          (if k = ''type'' then Some (objGet prop ''type'')
           else if k \<in> set optionalAttributes \<and> objGet prop k \<noteq> JUndefined
             then Some (objGet prop k)
           else None)"
    by (simp add: copyIfDefined_map_of)
  ultimately show ?thesis by blast
qed

theorem propertyToSnapshot_attributes_witness:
  "\<exists>out. propertyToSnapshot
            (JObj [(''type'', JStr ''String''), (''nullable'', JBool False),
                   (''default'', JNull), (''length'', JUndefined), (''primary'', JBool True)])
          = Inr out
     \<and> map_of out ''type'' = Some (JStr ''String'')
     \<and> map_of out ''nullable'' = Some (JBool False)
     \<and> map_of out ''default'' = Some JNull
     \<and> map_of out ''length'' = None
     \<and> map_of out ''unique'' = None
     \<and> map_of out ''primary'' = None"
  using propertyToSnapshot_attributes
    [of "[(''type'', JStr ''String''), (''nullable'', JBool False),
          (''default'', JNull), (''length'', JUndefined), (''primary'', JBool True)]"]
  by (auto simp add: optionalAttributes_def objGet_def)

section \<open>Normalisation of schema options\<close>


lemma map_of_setWhen:
  "k \<noteq> ''__proto__''
     \<Longrightarrow> map_of (setWhen c k v obj) k' = (if c \<and> k' = k then Some v else map_of obj k')"
  by (simp add: setWhen_def objSet_def update_conv')

lemma setWhen_False: "setWhen False k v obj = obj"
  by (simp add: setWhen_def)

lemma snapshotOptions_lookup:
  "map_of (snapshotOptions opts allIndexes) k =
     (if k = ''indexes'' then (if allIndexes \<noteq> [] then Some (JArr allIndexes) else None)
      else if k = ''authenticatable''
        then (if optChain opts ''authenticatable'' = JBool True then Some (JBool True) else None)
      else if k = ''translations''
        then (if optChain opts ''translations'' = JBool True then Some (JBool True) else None)
      else if k = ''tableName''
        then (if truthy (optChain opts ''tableName'') then Some (getProp opts ''tableName'') else None)
      else if k = ''softDelete''
        then (if optChain opts ''softDelete'' = JBool True then Some (JBool True) else None)
      else if k = ''timestamps''
        then (if optChain opts ''timestamps'' = JBool False then Some (JBool False) else None)
      else if k = ''idType''
        then (if truthy (optChain opts ''idType'') \<and> getProp opts ''idType'' \<noteq> JStr ''BigInt''
              then Some (getProp opts ''idType'') else None)
      else if k = ''id''
        then (if optChain opts ''id'' = JBool False then Some (JBool False) else None)
      else None)"
  by (simp add: snapshotOptions_def Let_def map_of_setWhen)

lemma snapshotOptions_all_false:
  assumes "optChain opts ''id'' \<noteq> JBool False"
    and "\<not> (truthy (optChain opts ''idType'') \<and> getProp opts ''idType'' \<noteq> JStr ''BigInt'')"
    and "optChain opts ''timestamps'' \<noteq> JBool False"
    and "optChain opts ''softDelete'' \<noteq> JBool True"
    and "\<not> truthy (optChain opts ''tableName'')"
    and "optChain opts ''translations'' \<noteq> JBool True"
    and "optChain opts ''authenticatable'' \<noteq> JBool True"
  shows "snapshotOptions opts [] = []"
proof -
  have c: "(optChain opts ''id'' = JBool False) = False"
    "(truthy (optChain opts ''idType'') \<and> getProp opts ''idType'' \<noteq> JStr ''BigInt'') = False"
    "(optChain opts ''timestamps'' = JBool False) = False"
    "(optChain opts ''softDelete'' = JBool True) = False"
    "truthy (optChain opts ''tableName'') = False"
    "(optChain opts ''translations'' = JBool True) = False"
    "(optChain opts ''authenticatable'' = JBool True) = False"
    using assms by blast+
  show ?thesis
    unfolding snapshotOptions_def Let_def c by (simp add: setWhen_False)
qed

lemma schemaToSnapshot_shape:
  assumes "schemaToSnapshot schema = Inr s"
  obtains properties idxs uniq where
    "indexSnapshots (optChain (objGet schema ''options'') ''indexes'') = Inr idxs"
    "uniqueAsIndexes (optChain (objGet schema ''options'') ''unique'') = Inr uniq"
    "s = [(''name'', objGet schema ''name''),
          (''kind'', (if nullish (objGet schema ''kind'') then JStr ''object''
                      else objGet schema ''kind''))]
         @ (if properties \<noteq> [] then [(''properties'', JObj properties)] else [])
         @ (if truthy (objGet schema ''values'') then [(''values'', objGet schema ''values'')] else [])
         @ (if snapshotOptions (objGet schema ''options'') (idxs @ uniq) \<noteq> []
            then [(''options'', JObj (snapshotOptions (objGet schema ''options'') (idxs @ uniq)))]
            else [])"
proof -
  from assms obtain properties where
    rest: "(let opts = objGet schema ''options'' in
      case indexSnapshots (optChain opts ''indexes'') of
        Inl e \<Rightarrow> Inl e
      | Inr idxs \<Rightarrow>
     (case uniqueAsIndexes (optChain opts ''unique'') of
        Inl e \<Rightarrow> Inl e
      | Inr uniq \<Rightarrow>
     (let allIndexes = idxs @ uniq;
          sopts = snapshotOptions opts allIndexes
      in Inr ([(''name'', objGet schema ''name''),
               (''kind'', (if nullish (objGet schema ''kind'') then JStr ''object''
                           else objGet schema ''kind''))]
           @ (if properties \<noteq> [] then [(''properties'', JObj properties)] else [])
           @ (if truthy (objGet schema ''values'') then [(''values'', objGet schema ''values'')] else [])
           @ (if sopts \<noteq> [] then [(''options'', JObj sopts)] else []))))) = Inr s"
    unfolding schemaToSnapshot_def by (cases "(if truthy (objGet schema ''properties'')
            then propertiesLoop (objectEntries (objGet schema ''properties'')) []
            else Inr [])") simp_all
  obtain idxs where i: "indexSnapshots (optChain (objGet schema ''options'') ''indexes'') = Inr idxs"
    using rest by (cases "indexSnapshots (optChain (objGet schema ''options'') ''indexes'')")
      (simp_all add: Let_def)
  obtain uniq where u: "uniqueAsIndexes (optChain (objGet schema ''options'') ''unique'') = Inr uniq"
    using rest i by (cases "uniqueAsIndexes (optChain (objGet schema ''options'') ''unique'')")
      (simp_all add: Let_def)
  from rest i u have "s = [(''name'', objGet schema ''name''),
          (''kind'', (if nullish (objGet schema ''kind'') then JStr ''object''
                      else objGet schema ''kind''))]
         @ (if properties \<noteq> [] then [(''properties'', JObj properties)] else [])
         @ (if truthy (objGet schema ''values'') then [(''values'', objGet schema ''values'')] else [])
         @ (if snapshotOptions (objGet schema ''options'') (idxs @ uniq) \<noteq> []
            then [(''options'', JObj (snapshotOptions (objGet schema ''options'') (idxs @ uniq)))]
            else [])"
    by (simp add: Let_def)
  with i u that show ?thesis by blast
qed

lemma optionsOf_schemaToSnapshot:
  assumes "schemaToSnapshot schema = Inr s"
  obtains idxs uniq where
    "indexSnapshots (optChain (objGet schema ''options'') ''indexes'') = Inr idxs"
    "uniqueAsIndexes (optChain (objGet schema ''options'') ''unique'') = Inr uniq"
    "optionsOf s = snapshotOptions (objGet schema ''options'') (idxs @ uniq)"
    "map_of s ''options'' = None \<longleftrightarrow> snapshotOptions (objGet schema ''options'') (idxs @ uniq) = []"
proof -
  from assms obtain properties idxs uniq where
    i: "indexSnapshots (optChain (objGet schema ''options'') ''indexes'') = Inr idxs" and
    u: "uniqueAsIndexes (optChain (objGet schema ''options'') ''unique'') = Inr uniq" and
    s: "s = [(''name'', objGet schema ''name''),
          (''kind'', (if nullish (objGet schema ''kind'') then JStr ''object''
                      else objGet schema ''kind''))]
         @ (if properties \<noteq> [] then [(''properties'', JObj properties)] else [])
         @ (if truthy (objGet schema ''values'') then [(''values'', objGet schema ''values'')] else [])
         @ (if snapshotOptions (objGet schema ''options'') (idxs @ uniq) \<noteq> []
            then [(''options'', JObj (snapshotOptions (objGet schema ''options'') (idxs @ uniq)))]
            else [])"
    by (rule schemaToSnapshot_shape)
  have m: "map_of s ''options'' =
             (if snapshotOptions (objGet schema ''options'') (idxs @ uniq) = [] then None
              else Some (JObj (snapshotOptions (objGet schema ''options'') (idxs @ uniq))))"
    unfolding s by simp
  then have o: "optionsOf s = snapshotOptions (objGet schema ''options'') (idxs @ uniq)"
    by (simp add: optionsOf_def objGet_def)
  from m have n: "map_of s ''options'' = None
      \<longleftrightarrow> snapshotOptions (objGet schema ''options'') (idxs @ uniq) = []"
    by simp
  show ?thesis by (rule that [OF i u o n])
qed

lemma set_update_cases:
  "p \<in> set (AList.update k v al) \<Longrightarrow> p = (k, v) \<or> p \<in> set al"
  by (induction al) (auto split: if_splits)

lemma schemasLoop_step:
  assumes "schemasLoop ((n, schema) # xs) acc = Inr r"
  obtains s where "schemaToSnapshot schema = Inr s"
    and "schemasLoop xs (if n = ''__proto__'' then acc else AList.update n s acc) = Inr r"
proof (cases "schemaToSnapshot schema")
  case (Inl e)
  with assms show ?thesis by simp
next
  case (Inr s)
  with assms have "schemasLoop xs (if n = ''__proto__'' then acc else AList.update n s acc) = Inr r"
    by (simp only: schemasLoop.simps sum.case)
  with Inr that show ?thesis by blast
qed

lemma schemasLoop_member:
  "schemasLoop xs acc = Inr r \<Longrightarrow> (name, s) \<in> set r
     \<Longrightarrow> (name, s) \<in> set acc
         \<or> (\<exists>schema. (name, schema) \<in> set xs \<and> schemaToSnapshot schema = Inr s)"
proof (induction xs arbitrary: acc)
  case Nil
  then show ?case by simp
next
  case (Cons x xs)
  obtain n schema where x: "x = (n, schema)" by (cases x)
  from Cons.prems(1) have "schemasLoop ((n, schema) # xs) acc = Inr r"
    by (simp only: x)
  then obtain s' where
    s': "schemaToSnapshot schema = Inr s'" and
    loop: "schemasLoop xs (if n = ''__proto__'' then acc else AList.update n s' acc) = Inr r"
    by (rule schemasLoop_step)
  have inner: "(name, s) \<in> set (if n = ''__proto__'' then acc else AList.update n s' acc)
      \<Longrightarrow> (name, s) = (n, s') \<or> (name, s) \<in> set acc"
  proof (cases "n = ''__proto__''")
    case True
    then have "(if n = ''__proto__'' then acc else AList.update n s' acc) = acc"
      by (rule if_P)
    moreover assume "(name, s) \<in> set (if n = ''__proto__'' then acc else AList.update n s' acc)"
    ultimately have "(name, s) \<in> set acc" by (rule subst [where P = "\<lambda>l. (name, s) \<in> set l"])
    then show ?thesis ..
  next
    case False
    then have "(if n = ''__proto__'' then acc else AList.update n s' acc) = AList.update n s' acc"
      by (rule if_not_P)
    moreover assume "(name, s) \<in> set (if n = ''__proto__'' then acc else AList.update n s' acc)"
    ultimately have "(name, s) \<in> set (AList.update n s' acc)"
      by (rule subst [where P = "\<lambda>l. (name, s) \<in> set l"])
    then show ?thesis by (rule set_update_cases)
  qed
  from Cons.IH [OF loop Cons.prems(2)] show ?case
  proof
    assume "(name, s) \<in> set (if n = ''__proto__'' then acc else AList.update n s' acc)"
    then have "(name, s) = (n, s') \<or> (name, s) \<in> set acc" by (rule inner)
    with s' x show ?thesis by auto
  next
    assume "\<exists>schema. (name, schema) \<in> set xs \<and> schemaToSnapshot schema = Inr s"
    then show ?thesis by auto
  qed
qed

lemma elided_differs:
  assumes "schemaToSnapshot schema = Inr s"
    and "k \<in> set elidedOptionKeys"
    and "k \<in> fst ` set (optionsOf s)"
  shows "optChain (objGet schema ''options'') k \<noteq> documentedDefault k"
proof -
  from assms(1) obtain idxs uniq where
    o: "optionsOf s = snapshotOptions (objGet schema ''options'') (idxs @ uniq)"
    by (rule optionsOf_schemaToSnapshot)
  from assms(3) have "map_of (optionsOf s) k \<noteq> None"
    by (simp add: map_of_eq_None_iff)
  then have present: "map_of (snapshotOptions (objGet schema ''options'') (idxs @ uniq)) k \<noteq> None"
    by (simp add: o)
  have chain: "truthy (optChain v a) \<Longrightarrow> optChain v a = getProp v a" for v a
    by (simp add: optChain_def split: if_splits)
  from assms(2) have "k = ''id'' \<or> k = ''idType'' \<or> k = ''timestamps'' \<or> k = ''softDelete''
      \<or> k = ''translations'' \<or> k = ''authenticatable''"
    by (simp add: elidedOptionKeys_def)
  then show ?thesis
    using present chain [of "objGet schema ''options''" "''idType''"]
    by (auto simp add: snapshotOptions_lookup documentedDefault_def split: if_splits)
qed

lemma onlyDefaults_get:
  assumes "onlyDefaults (JObj kvs)"
  shows "objGet kvs k = JUndefined \<or> (k \<in> set elidedOptionKeys \<and> objGet kvs k = documentedDefault k)"
proof (cases "map_of kvs k")
  case None
  then show ?thesis by (simp add: objGet_def)
next
  case (Some v)
  then have "(k, v) \<in> set kvs" by (rule map_of_SomeD)
  with assms have "k \<in> set elidedOptionKeys \<and> v = documentedDefault k"
    by (auto simp add: onlyDefaults_def list_all_iff)
  with Some show ?thesis by (simp add: objGet_def)
qed

lemma onlyDefaults_no_options:
  assumes "schemaToSnapshot schema = Inr s"
    and "onlyDefaults (objGet schema ''options'')"
  shows "map_of s ''options'' = None"
proof -
  from assms(2) obtain kvs where opts: "objGet schema ''options'' = JObj kvs"
    by (auto simp add: onlyDefaults_def split: jsval.splits)
  with assms(2) have d: "onlyDefaults (JObj kvs)" by simp
  have chain: "optChain (JObj kvs) a = objGet kvs a" for a
    by (simp add: optChain_def)
  from assms(1) obtain idxs uniq where
    i: "indexSnapshots (optChain (objGet schema ''options'') ''indexes'') = Inr idxs" and
    u: "uniqueAsIndexes (optChain (objGet schema ''options'') ''unique'') = Inr uniq" and
    n: "map_of s ''options'' = None
          \<longleftrightarrow> snapshotOptions (objGet schema ''options'') (idxs @ uniq) = []"
    by (rule optionsOf_schemaToSnapshot)
  from onlyDefaults_get [OF d, of "''indexes''"] have "objGet kvs ''indexes'' = JUndefined"
    by (simp add: elidedOptionKeys_def)
  with i opts have idxs: "idxs = []"
    by (simp add: chain indexSnapshots_def)
  from onlyDefaults_get [OF d, of "''unique''"] have "objGet kvs ''unique'' = JUndefined"
    by (simp add: elidedOptionKeys_def)
  with u opts have uniq: "uniq = []"
    by (simp add: chain uniqueAsIndexes_def)
  from onlyDefaults_get [OF d, of "''tableName''"] have t: "objGet kvs ''tableName'' = JUndefined"
    by (simp add: elidedOptionKeys_def)
  have "snapshotOptions (JObj kvs) [] = []"
  proof (rule snapshotOptions_all_false)
    show "optChain (JObj kvs) ''id'' \<noteq> JBool False"
      using onlyDefaults_get [OF d, of "''id''"] by (auto simp add: chain documentedDefault_def)
    show "\<not> (truthy (optChain (JObj kvs) ''idType'') \<and> getProp (JObj kvs) ''idType'' \<noteq> JStr ''BigInt'')"
      using onlyDefaults_get [OF d, of "''idType''"] by (auto simp add: chain documentedDefault_def)
    show "optChain (JObj kvs) ''timestamps'' \<noteq> JBool False"
      using onlyDefaults_get [OF d, of "''timestamps''"] by (auto simp add: chain documentedDefault_def)
    show "optChain (JObj kvs) ''softDelete'' \<noteq> JBool True"
      using onlyDefaults_get [OF d, of "''softDelete''"] by (auto simp add: chain documentedDefault_def)
    show "\<not> truthy (optChain (JObj kvs) ''tableName'')"
      using t by (simp add: chain)
    show "optChain (JObj kvs) ''translations'' \<noteq> JBool True"
      using onlyDefaults_get [OF d, of "''translations''"] by (auto simp add: chain documentedDefault_def)
    show "optChain (JObj kvs) ''authenticatable'' \<noteq> JBool True"
      using onlyDefaults_get [OF d, of "''authenticatable''"]
      by (auto simp add: chain documentedDefault_def)
  qed
  with n opts idxs uniq show ?thesis by simp
qed

text \<open>
  C5. Every schema snapshot of a normalised collection comes from a schema of the input
  under the same name, and it satisfies the elision invariant: if one of the keys
  \<^verbatim>\<open>id\<close>, \<^verbatim>\<open>idType\<close>, \<^verbatim>\<open>timestamps\<close>, \<^verbatim>\<open>softDelete\<close>, \<^verbatim>\<open>translations\<close>,
  \<^verbatim>\<open>authenticatable\<close> is present in its options, then the incoming value
  \<^verbatim>\<open>opts?.k\<close> differs from the documented default of that key. A schema whose options
  object holds documented defaults only has no \<^verbatim>\<open>options\<close> entry in its snapshot.
\<close>

theorem elision_invariant:
  assumes "schemasToSnapshot schemas = Inr snap" and "(name, s) \<in> set snap"
  shows "\<exists>schema. (name, schema) \<in> set schemas \<and> schemaToSnapshot schema = Inr s
     \<and> (\<forall>k \<in> set elidedOptionKeys. k \<in> fst ` set (optionsOf s)
           \<longrightarrow> optChain (objGet schema ''options'') k \<noteq> documentedDefault k)
     \<and> (onlyDefaults (objGet schema ''options'') \<longrightarrow> map_of s ''options'' = None)"
proof -
  from assms have "(name, s) \<in> set [] \<or> (\<exists>schema. (name, schema) \<in> set schemas
      \<and> schemaToSnapshot schema = Inr s)"
    unfolding schemasToSnapshot_def by (rule schemasLoop_member)
  then obtain schema where
    m: "(name, schema) \<in> set schemas" and n: "schemaToSnapshot schema = Inr s"
    by auto
  from n have "\<forall>k \<in> set elidedOptionKeys. k \<in> fst ` set (optionsOf s)
           \<longrightarrow> optChain (objGet schema ''options'') k \<noteq> documentedDefault k"
    using elided_differs by blast
  moreover from n have "onlyDefaults (objGet schema ''options'') \<longrightarrow> map_of s ''options'' = None"
    using onlyDefaults_no_options by blast
  ultimately show ?thesis using m n by blast
qed

theorem elision_invariant_witness:
  "(\<exists>schema. (''User'', schema) \<in> set
        [(''User'', [(''name'', JStr ''User''),
            (''options'', JObj [(''id'', JBool True), (''idType'', JStr ''BigInt''),
               (''timestamps'', JBool True), (''softDelete'', JBool False),
               (''translations'', JBool False), (''authenticatable'', JBool False)])]),
         (''Log'', [(''name'', JStr ''Log''),
            (''options'', JObj [(''id'', JBool False), (''timestamps'', JBool True),
               (''softDelete'', JBool True)])])]
      \<and> onlyDefaults (objGet schema ''options'')
      \<and> map_of [(''name'', JStr ''User''), (''kind'', JStr ''object'')] ''options'' = None)
   \<and> (\<exists>schema. schemaToSnapshot schema =
          Inr [(''name'', JStr ''Log''), (''kind'', JStr ''object''),
               (''options'', JObj [(''id'', JBool False), (''softDelete'', JBool True)])]
      \<and> optChain (objGet schema ''options'') ''id'' \<noteq> documentedDefault ''id''
      \<and> optChain (objGet schema ''options'') ''softDelete'' \<noteq> documentedDefault ''softDelete'')"
proof -
  let ?schemas = "[(''User'', [(''name'', JStr ''User''),
            (''options'', JObj [(''id'', JBool True), (''idType'', JStr ''BigInt''),
               (''timestamps'', JBool True), (''softDelete'', JBool False),
               (''translations'', JBool False), (''authenticatable'', JBool False)])]),
         (''Log'', [(''name'', JStr ''Log''),
            (''options'', JObj [(''id'', JBool False), (''timestamps'', JBool True),
               (''softDelete'', JBool True)])])]"
  let ?user = "[(''name'', JStr ''User''), (''kind'', JStr ''object'')]"
  let ?log = "[(''name'', JStr ''Log''), (''kind'', JStr ''object''),
               (''options'', JObj [(''id'', JBool False), (''softDelete'', JBool True)])]"
  have norm: "schemasToSnapshot ?schemas = Inr [(''User'', ?user), (''Log'', ?log)]"
    by (simp add: normalise_defs)
  have keys: "''id'' \<in> set elidedOptionKeys" "''softDelete'' \<in> set elidedOptionKeys"
    "''id'' \<in> fst ` set (optionsOf ?log)" "''softDelete'' \<in> fst ` set (optionsOf ?log)"
    by (simp_all add: elidedOptionKeys_def optionsOf_def objGet_def)
  from elision_invariant [OF norm, of "''User''" ?user]
  have "\<exists>schema. (''User'', schema) \<in> set ?schemas
      \<and> onlyDefaults (objGet schema ''options'') \<and> map_of ?user ''options'' = None"
    by (auto simp add: onlyDefaults_def objGet_def elidedOptionKeys_def documentedDefault_def)
  moreover from elision_invariant [OF norm, of "''Log''" ?log] keys
  have "\<exists>schema. schemaToSnapshot schema = Inr ?log
      \<and> optChain (objGet schema ''options'') ''id'' \<noteq> documentedDefault ''id''
      \<and> optChain (objGet schema ''options'') ''softDelete'' \<noteq> documentedDefault ''softDelete''"
    by auto
  ultimately show ?thesis by blast
qed

section \<open>Normalisation of indexes and unique constraints\<close>








subsection \<open>The decimal numeral in the name of a synthetic index\<close>









section \<open>Discarding changes\<close>

lemma endsWith_iff: "endsWith f suf \<longleftrightarrow> (\<exists>b. f = b @ suf)"
proof
  assume "endsWith f suf"
  then have "f = take (length f - length suf) f @ suf"
    by (metis append_take_drop_id endsWith_def)
  then show "\<exists>b. f = b @ suf" ..
next
  assume "\<exists>b. f = b @ suf"
  then show "endsWith f suf" by (auto simp add: endsWith_def)
qed

lemma endsWith_append [simp]: "endsWith (n @ suf) suf"
  by (auto simp add: endsWith_iff)

lemma yml_not_yaml: "\<not> endsWith (n @ ''.yml'') ''.yaml''"
proof
  assume "endsWith (n @ ''.yml'') ''.yaml''"
  then obtain b where "n @ ''.yml'' = b @ ''.yaml''" by (auto simp add: endsWith_iff)
  then have "rev (n @ ''.yml'') = rev (b @ ''.yaml'')" by simp
  then show False by simp
qed

lemma stripYamlExtension_yaml [simp]: "stripYamlExtension (n @ ''.yaml'') = n"
  by (simp add: stripYamlExtension_def)

lemma stripYamlExtension_yml [simp]: "stripYamlExtension (n @ ''.yml'') = n"
  by (simp add: stripYamlExtension_def yml_not_yaml)

lemma isYamlFile_yaml [simp]: "isYamlFile (n @ ''.yaml'')"
  by (simp add: isYamlFile_def)

lemma isYamlFile_yml [simp]: "isYamlFile (n @ ''.yml'')"
  by (simp add: isYamlFile_def)

lemma yaml_path_inject [simp]: "(n @ ''.yaml'' = m @ ''.yaml'') = (n = m)"
  by simp

lemma yml_yaml_differ [simp]: "n @ ''.yml'' \<noteq> m @ ''.yaml''"
proof
  assume "n @ ''.yml'' = m @ ''.yaml''"
  then have "rev (n @ ''.yml'') = rev (m @ ''.yaml'')" by simp
  then show False by simp
qed

lemma restoreLoop_result:
  assumes "\<forall>(name, ss) \<in> set snap. \<exists>y. snapshotToYaml ss = Inr y"
  shows "\<exists>fs'. restoreLoop str snap fs n = (Inr (n + length snap), fs')"
  using assms
proof (induction snap arbitrary: fs n)
  case Nil
  then show ?case by simp
next
  case (Cons x snap)
  obtain name ss where x: "x = (name, ss)" by (cases x)
  from Cons.prems x obtain y where y: "snapshotToYaml ss = Inr y" by auto
  from Cons.prems have "\<forall>(name, ss) \<in> set snap. \<exists>y. snapshotToYaml ss = Inr y" by simp
  from Cons.IH [OF this, of "writeFile (name @ ''.yaml'') (str y) fs" "n + 1"]
  show ?case using x y by simp
qed

lemma restoreLoop_count:
  "restoreLoop str snap fs n = (Inr m, fs') \<Longrightarrow> m = n + length snap"
proof (induction snap arbitrary: fs n)
  case Nil
  then show ?case by simp
next
  case (Cons x snap)
  obtain name ss where x: "x = (name, ss)" by (cases x)
  from Cons.prems x obtain y where y: "snapshotToYaml ss = Inr y"
    and loop: "restoreLoop str snap (writeFile (name @ ''.yaml'') (str y) fs) (n + 1) = (Inr m, fs')"
    by (auto split: sum.splits)
  from Cons.IH [OF loop] show ?case by simp
qed

lemma restoreLoop_frame:
  "restoreLoop str snap fs n = (r, fs') \<Longrightarrow> p \<notin> (\<lambda>name. name @ ''.yaml'') ` fst ` set snap
     \<Longrightarrow> map_of fs' p = map_of fs p"
proof (induction snap arbitrary: fs n)
  case Nil
  then show ?case by simp
next
  case (Cons x snap)
  obtain name ss where x: "x = (name, ss)" by (cases x)
  show ?case
  proof (cases "snapshotToYaml ss")
    case (Inl e)
    with Cons.prems x show ?thesis by simp
  next
    case (Inr y)
    with Cons.prems x
    have loop: "restoreLoop str snap (writeFile (name @ ''.yaml'') (str y) fs) (n + 1) = (r, fs')"
      by simp
    from Cons.prems(2) x have "p \<notin> (\<lambda>name. name @ ''.yaml'') ` fst ` set snap"
      and ne: "p \<noteq> name @ ''.yaml''" by auto
    with Cons.IH [OF loop]
    have "map_of fs' p = map_of (writeFile (name @ ''.yaml'') (str y) fs) p" by blast
    with ne show ?thesis by (simp add: writeFile_def update_conv')
  qed
qed

lemma restoreLoop_written:
  "restoreLoop str snap fs n = (Inr m, fs') \<Longrightarrow> distinct (map fst snap)
     \<Longrightarrow> (name, ss) \<in> set snap
     \<Longrightarrow> \<exists>y. snapshotToYaml ss = Inr y \<and> map_of fs' (name @ ''.yaml'') = Some (str y)"
proof (induction snap arbitrary: fs n)
  case Nil
  then show ?case by simp
next
  case (Cons x snap)
  obtain name' ss' where x: "x = (name', ss')" by (cases x)
  from Cons.prems(1) x obtain y where y: "snapshotToYaml ss' = Inr y"
    and loop: "restoreLoop str snap (writeFile (name' @ ''.yaml'') (str y) fs) (n + 1) = (Inr m, fs')"
    by (auto split: sum.splits)
  from Cons.prems(2) x have d: "distinct (map fst snap)" and fresh: "name' \<notin> fst ` set snap"
    by auto
  show ?case
  proof (cases "(name, ss) = (name', ss')")
    case True
    from fresh have "name' @ ''.yaml'' \<notin> (\<lambda>name. name @ ''.yaml'') ` fst ` set snap"
      by auto
    from restoreLoop_frame [OF loop this]
    have "map_of fs' (name' @ ''.yaml'') = Some (str y)"
      by (simp add: writeFile_def update_conv')
    with True y show ?thesis by auto
  next
    case False
    with Cons.prems(3) x have "(name, ss) \<in> set snap" by auto
    from Cons.IH [OF loop d this] show ?thesis .
  qed
qed

lemma restoreLoop_keys:
  "restoreLoop str snap fs n = (r, fs') \<Longrightarrow> fst ` set fs \<subseteq> fst ` set fs'"
proof (induction snap arbitrary: fs n)
  case Nil
  then show ?case by simp
next
  case (Cons x snap)
  obtain name ss where x: "x = (name, ss)" by (cases x)
  show ?case
  proof (cases "snapshotToYaml ss")
    case (Inl e)
    with Cons.prems x show ?thesis by simp
  next
    case (Inr y)
    with Cons.prems x
    have loop: "restoreLoop str snap (writeFile (name @ ''.yaml'') (str y) fs) (n + 1) = (r, fs')"
      by simp
    from Cons.IH [OF loop] show ?thesis
      by (auto simp add: writeFile_def dom_update)
  qed
qed

lemma deleteLoop_lookup:
  "deleteLoop names fl fs d = (d', fs')
     \<Longrightarrow> map_of fs' p =
           (if p \<in> set fl \<and> stripYamlExtension p \<notin> set names then None else map_of fs p)"
proof (induction fl arbitrary: fs d)
  case Nil
  then show ?case by simp
next
  case (Cons f fl)
  show ?case
  proof (cases "stripYamlExtension f \<notin> set names")
    case True
    with Cons.prems have "deleteLoop names fl (unlink f fs) (d + 1) = (d', fs')" by simp
    from Cons.IH [OF this] True show ?thesis
      by (auto simp add: unlink_def delete_conv')
  next
    case False
    with Cons.prems have "deleteLoop names fl fs d = (d', fs')" by simp
    from Cons.IH [OF this] False show ?thesis by auto
  qed
qed

lemma deleteLoop_count:
  "deleteLoop names fl fs d = (d', fs')
     \<Longrightarrow> d' = d + length (filter (\<lambda>f. stripYamlExtension f \<notin> set names) fl)"
proof (induction fl arbitrary: fs d)
  case Nil
  then show ?case by simp
next
  case (Cons f fl)
  show ?case
  proof (cases "stripYamlExtension f \<notin> set names")
    case True
    with Cons.prems have "deleteLoop names fl (unlink f fs) (d + 1) = (d', fs')" by simp
    from Cons.IH [OF this] True show ?thesis by simp
  next
    case False
    with Cons.prems have "deleteLoop names fl fs d = (d', fs')" by simp
    from Cons.IH [OF this] False show ?thesis by simp
  qed
qed

lemma discardChanges_unfold:
  assumes "store w = Some st" and "schemasDir w = Some dir" and "dir \<noteq> []"
    and "store_readLatestVersion env st = Some lv"
  shows "discardChanges env w =
     (case restoreLoop (stringify env) (snapshot lv) (files w) 0 of
        (Inl e, fs1) \<Rightarrow> (Inl e, w\<lparr>files := fs1\<rparr>)
      | (Inr n, fs1) \<Rightarrow>
          (case deleteLoop (map fst (snapshot lv)) (filter isYamlFile (map fst (files w))) fs1 0 of
             (d, fs2) \<Rightarrow> (Inr \<lparr>restored = n, deleted = d\<rparr>, w\<lparr>files := fs2\<rparr>)))"
  using assms
  by (simp add: discardChanges_def checkSchemasDir_def getStore_def readdir_def Let_def)

lemma discardChanges_success:
  assumes "discardChanges env w = (Inr r, w')"
    and "store w = Some st" and "store_readLatestVersion env st = Some lv"
  obtains n fs1 where
    "restoreLoop (stringify env) (snapshot lv) (files w) 0 = (Inr n, fs1)"
    "deleteLoop (map fst (snapshot lv)) (filter isYamlFile (map fst (files w))) fs1 0
       = (deleted r, files w')"
    "restored r = n"
proof -
  from assms(1) obtain dir where dir: "schemasDir w = Some dir" "dir \<noteq> []"
    by (cases "schemasDir w") (auto simp add: discardChanges_def checkSchemasDir_def split: if_splits)
  note u = discardChanges_unfold [OF assms(2) dir assms(3)]
  obtain res fs1 where rl: "restoreLoop (stringify env) (snapshot lv) (files w) 0 = (res, fs1)"
    by (cases "restoreLoop (stringify env) (snapshot lv) (files w) 0")
  with u assms(1) obtain n where n: "res = Inr n"
    by (cases res) auto
  obtain d fs2 where dl:
    "deleteLoop (map fst (snapshot lv)) (filter isYamlFile (map fst (files w))) fs1 0 = (d, fs2)"
    by (cases "deleteLoop (map fst (snapshot lv)) (filter isYamlFile (map fst (files w))) fs1 0")
  from u assms(1) rl n dl have "r = \<lparr>restored = n, deleted = d\<rparr>" and "w' = w\<lparr>files := fs2\<rparr>"
    by simp_all
  then have "deleted r = d" "restored r = n" "files w' = fs2" by simp_all
  with rl n dl that show ?thesis by blast
qed

lemma discard_lookup:
  assumes rl: "restoreLoop str snap fs 0 = (Inr n, fs1)"
    and dl: "deleteLoop (map fst snap) (filter isYamlFile (map fst fs)) fs1 0 = (d, fs2)"
  shows "p \<in> (\<lambda>name. name @ ''.yaml'') ` fst ` set snap \<Longrightarrow> map_of fs2 p = map_of fs1 p"
    and "p \<notin> (\<lambda>name. name @ ''.yaml'') ` fst ` set snap \<Longrightarrow>
         map_of fs2 p = (if p \<in> fst ` set fs \<and> isYamlFile p \<and> stripYamlExtension p \<notin> fst ` set snap
                         then None else map_of fs p)"
proof -
  note look = deleteLoop_lookup [OF dl, of p]
  {
    assume "p \<in> (\<lambda>name. name @ ''.yaml'') ` fst ` set snap"
    then obtain name where "name \<in> fst ` set snap" "p = name @ ''.yaml''" by blast
    then have "stripYamlExtension p \<in> set (map fst snap)" by simp
    with look show "map_of fs2 p = map_of fs1 p" by simp
  next
    assume "p \<notin> (\<lambda>name. name @ ''.yaml'') ` fst ` set snap"
    from restoreLoop_frame [OF rl this] have "map_of fs1 p = map_of fs p" .
    with look show "map_of fs2 p =
        (if p \<in> fst ` set fs \<and> isYamlFile p \<and> stripYamlExtension p \<notin> fst ` set snap
         then None else map_of fs p)"
      by auto
  }
qed

lemma discard_gone:
  assumes rl: "restoreLoop str snap fs 0 = (Inr n, fs1)"
    and dl: "deleteLoop (map fst snap) (filter isYamlFile (map fst fs)) fs1 0 = (d, fs2)"
    and f: "f \<in> fst ` set fs"
  shows "map_of fs2 f = None \<longleftrightarrow> isYamlFile f \<and> stripYamlExtension f \<notin> fst ` set snap"
proof (cases "f \<in> (\<lambda>name. name @ ''.yaml'') ` fst ` set snap")
  case True
  then obtain name where name: "name \<in> fst ` set snap" "f = name @ ''.yaml''" by blast
  from restoreLoop_keys [OF rl] f have "f \<in> fst ` set fs1" by blast
  then have "map_of fs1 f \<noteq> None" by (simp add: map_of_eq_None_iff)
  with discard_lookup(1) [OF rl dl True] have "map_of fs2 f \<noteq> None" by simp
  with name show ?thesis by simp
next
  case False
  from f have "map_of fs f \<noteq> None" by (simp add: map_of_eq_None_iff)
  with discard_lookup(2) [OF rl dl False] f show ?thesis by (auto split: if_splits)
qed

text \<open>
  Discard on an initialised service. Without a latest version the call fails. With a
  latest version whose snapshot has each schema name once and whose every schema
  \<^verbatim>\<open>snapshotToYaml\<close> converts without an exception, the call succeeds: for every
  schema of the snapshot the file \<^verbatim>\<open><name>.yaml\<close> then holds the serialised
  \<^verbatim>\<open>snapshotToYaml\<close> of that schema; a file of the directory is gone afterwards
  exactly when it is a \<^verbatim>\<open>.yaml\<close> or \<^verbatim>\<open>.yml\<close> file whose base name is not a key of
  the snapshot; \<^verbatim>\<open>restored\<close> is the number of schemas of the snapshot and
  \<^verbatim>\<open>deleted\<close> the number of files that are gone.
\<close>

lemma discardChanges_convertible:
  assumes "store w = Some st" and "schemasDir w = Some dir" and "dir \<noteq> []"
    and "distinct (map fst (files w))"
  shows "(store_readLatestVersion env st = None
            \<longrightarrow> discardChanges env w = (Inl NoVersionToRestoreFrom, w))
     \<and> (\<forall>lv. store_readLatestVersion env st = Some lv
              \<and> distinct (map fst (snapshot lv))
              \<and> (\<forall>(name, ss) \<in> set (snapshot lv). \<exists>y. snapshotToYaml ss = Inr y)
          \<longrightarrow> (\<exists>fs'.
                 discardChanges env w =
                   (Inr \<lparr>restored = length (snapshot lv),
                         deleted = card {f \<in> fst ` set (files w). map_of fs' f = None}\<rparr>,
                    w\<lparr>files := fs'\<rparr>)
               \<and> (\<forall>(name, ss) \<in> set (snapshot lv).
                     \<exists>y. snapshotToYaml ss = Inr y
                        \<and> map_of fs' (name @ ''.yaml'') = Some (stringify env y))
               \<and> (\<forall>f \<in> fst ` set (files w).
                     map_of fs' f = None
                       \<longleftrightarrow> isYamlFile f \<and> stripYamlExtension f \<notin> fst ` set (snapshot lv))))"
proof (intro conjI allI impI)
  assume "store_readLatestVersion env st = None"
  with assms show "discardChanges env w = (Inl NoVersionToRestoreFrom, w)"
    by (simp add: discardChanges_def checkSchemasDir_def getStore_def)
next
  fix lv
  assume a: "store_readLatestVersion env st = Some lv
              \<and> distinct (map fst (snapshot lv))
              \<and> (\<forall>(name, ss) \<in> set (snapshot lv). \<exists>y. snapshotToYaml ss = Inr y)"
  let ?snap = "snapshot lv"
  let ?fl = "filter isYamlFile (map fst (files w))"
  from a have latest: "store_readLatestVersion env st = Some lv"
    and dsnap: "distinct (map fst ?snap)"
    and ok: "\<forall>(name, ss) \<in> set ?snap. \<exists>y. snapshotToYaml ss = Inr y"
    by blast+
  from restoreLoop_result [OF ok, of "stringify env" "files w" 0] obtain fs1 where
    rl: "restoreLoop (stringify env) ?snap (files w) 0 = (Inr (length ?snap), fs1)"
    by auto
  obtain d fs2 where dl: "deleteLoop (map fst ?snap) ?fl fs1 0 = (d, fs2)"
    by (cases "deleteLoop (map fst ?snap) ?fl fs1 0")
  have gone: "\<forall>f \<in> fst ` set (files w).
      map_of fs2 f = None \<longleftrightarrow> isYamlFile f \<and> stripYamlExtension f \<notin> fst ` set ?snap"
  proof (intro ballI)
    fix f assume "f \<in> fst ` set (files w)"
    then show "map_of fs2 f = None
        \<longleftrightarrow> isYamlFile f \<and> stripYamlExtension f \<notin> fst ` set ?snap"
      by (rule discard_gone [OF rl dl])
  qed
  have seteq: "{f \<in> fst ` set (files w). map_of fs2 f = None}
      = set (filter (\<lambda>f. stripYamlExtension f \<notin> set (map fst ?snap)) ?fl)"
  proof (rule set_eqI)
    fix f
    show "f \<in> {f \<in> fst ` set (files w). map_of fs2 f = None}
      \<longleftrightarrow> f \<in> set (filter (\<lambda>f. stripYamlExtension f \<notin> set (map fst ?snap)) ?fl)"
    proof (cases "f \<in> fst ` set (files w)")
      case True
      from gone True have "map_of fs2 f = None
          \<longleftrightarrow> isYamlFile f \<and> stripYamlExtension f \<notin> fst ` set ?snap"
        by (rule bspec)
      with True show ?thesis by simp
    next
      case False
      then show ?thesis by simp
    qed
  qed
  from assms(4)
  have "distinct (filter (\<lambda>f. stripYamlExtension f \<notin> set (map fst ?snap)) ?fl)"
    by simp
  then have "card (set (filter (\<lambda>f. stripYamlExtension f \<notin> set (map fst ?snap)) ?fl))
      = length (filter (\<lambda>f. stripYamlExtension f \<notin> set (map fst ?snap)) ?fl)"
    by (rule distinct_card)
  then have "card {f \<in> fst ` set (files w). map_of fs2 f = None}
      = length (filter (\<lambda>f. stripYamlExtension f \<notin> set (map fst ?snap)) ?fl)"
    by (simp only: seteq)
  moreover from deleteLoop_count [OF dl]
  have "d = length (filter (\<lambda>f. stripYamlExtension f \<notin> set (map fst ?snap)) ?fl)"
    by simp
  ultimately have d: "d = card {f \<in> fst ` set (files w). map_of fs2 f = None}"
    by (simp only:)
  have written: "\<forall>(name, ss) \<in> set ?snap.
      \<exists>y. snapshotToYaml ss = Inr y \<and> map_of fs2 (name @ ''.yaml'') = Some (stringify env y)"
  proof (intro ballI, clarify)
    fix name ss assume m: "(name, ss) \<in> set ?snap"
    from restoreLoop_written [OF rl dsnap m] obtain y where
      y: "snapshotToYaml ss = Inr y" "map_of fs1 (name @ ''.yaml'') = Some (stringify env y)"
      by blast
    from m have "name \<in> fst ` set ?snap" by force
    then have "name @ ''.yaml'' \<in> (\<lambda>name. name @ ''.yaml'') ` fst ` set ?snap"
      by blast
    from discard_lookup(1) [OF rl dl this] y
    show "\<exists>y. snapshotToYaml ss = Inr y \<and> map_of fs2 (name @ ''.yaml'') = Some (stringify env y)"
      by simp
  qed
  have "discardChanges env w = (Inr \<lparr>restored = length ?snap, deleted = d\<rparr>, w\<lparr>files := fs2\<rparr>)"
    by (simp only: discardChanges_unfold [OF assms(1-3) latest] rl dl prod.case sum.case)
  then have "discardChanges env w =
          (Inr \<lparr>restored = length ?snap,
                deleted = card {f \<in> fst ` set (files w). map_of fs2 f = None}\<rparr>,
           w\<lparr>files := fs2\<rparr>)"
    by (simp only: d [symmetric])
  with written gone
  have "discardChanges env w =
            (Inr \<lparr>restored = length ?snap,
                  deleted = card {f \<in> fst ` set (files w). map_of fs2 f = None}\<rparr>,
             w\<lparr>files := fs2\<rparr>)
        \<and> (\<forall>(name, ss) \<in> set ?snap.
              \<exists>y. snapshotToYaml ss = Inr y
                 \<and> map_of fs2 (name @ ''.yaml'') = Some (stringify env y))
        \<and> (\<forall>f \<in> fst ` set (files w).
              map_of fs2 f = None
                \<longleftrightarrow> isYamlFile f \<and> stripYamlExtension f \<notin> fst ` set ?snap)"
    by (intro conjI)
  then show "\<exists>fs'.
          discardChanges env w =
            (Inr \<lparr>restored = length ?snap,
                  deleted = card {f \<in> fst ` set (files w). map_of fs' f = None}\<rparr>,
             w\<lparr>files := fs'\<rparr>)
        \<and> (\<forall>(name, ss) \<in> set ?snap.
              \<exists>y. snapshotToYaml ss = Inr y
                 \<and> map_of fs' (name @ ''.yaml'') = Some (stringify env y))
        \<and> (\<forall>f \<in> fst ` set (files w).
              map_of fs' f = None
                \<longleftrightarrow> isYamlFile f \<and> stripYamlExtension f \<notin> fst ` set ?snap)"
    by (rule exI [of _ fs2])
qed

lemma discardChanges_convertible_example:
  "discardChanges (exampleCollaborators [] None) (exampleWorld exampleFiles)
     = (Inl NoVersionToRestoreFrom, exampleWorld exampleFiles)
   \<and> (\<exists>fs'.
         discardChanges (exampleCollaborators [] (Some exampleVersion)) (exampleWorld exampleFiles) =
           (Inr \<lparr>restored = 1,
                 deleted = card {f \<in> fst ` set exampleFiles. map_of fs' f = None}\<rparr>,
            exampleWorld fs')
       \<and> map_of fs' ''User.yaml'' = Some ''properties''
       \<and> map_of fs' ''Post.yaml'' = None
       \<and> map_of fs' ''Tag.yml'' = None
       \<and> map_of fs' ''notes.txt'' \<noteq> None)"
proof -
  have init: "store (exampleWorld exampleFiles) = Some ()"
    "schemasDir (exampleWorld exampleFiles) = Some ''schemas''" "''schemas'' \<noteq> []"
    "distinct (map fst (files (exampleWorld exampleFiles)))"
    by (simp_all add: example_defs exampleFiles_def)
  note none = discardChanges_convertible
    [OF init, of "exampleCollaborators [] None", THEN conjunct1]
  note some = discardChanges_convertible
    [OF init, of "exampleCollaborators [] (Some exampleVersion)", THEN conjunct2,
     THEN spec, of exampleVersion]
  have pre: "store_readLatestVersion (exampleCollaborators [] (Some exampleVersion)) ()
               = Some exampleVersion
             \<and> distinct (map fst (snapshot exampleVersion))
             \<and> (\<forall>(name, ss) \<in> set (snapshot exampleVersion). \<exists>y. snapshotToYaml ss = Inr y)"
    by (simp add: example_defs exampleVersion_def snapshotToYaml_exampleUser)
  from some [THEN mp, OF pre] obtain fs' where
    r: "discardChanges (exampleCollaborators [] (Some exampleVersion)) (exampleWorld exampleFiles) =
           (Inr \<lparr>restored = length (snapshot exampleVersion),
                 deleted = card {f \<in> fst ` set (files (exampleWorld exampleFiles)).
                                   map_of fs' f = None}\<rparr>,
            (exampleWorld exampleFiles)\<lparr>files := fs'\<rparr>)" and
    written: "\<forall>(name, ss) \<in> set (snapshot exampleVersion).
                 \<exists>y. snapshotToYaml ss = Inr y
                    \<and> map_of fs' (name @ ''.yaml'')
                        = Some (stringify (exampleCollaborators [] (Some exampleVersion)) y)" and
    gone: "\<forall>f \<in> fst ` set (files (exampleWorld exampleFiles)).
              map_of fs' f = None
                \<longleftrightarrow> isYamlFile f
                    \<and> stripYamlExtension f \<notin> fst ` set (snapshot exampleVersion)"
    by blast
  from r have "discardChanges (exampleCollaborators [] (Some exampleVersion))
                 (exampleWorld exampleFiles) =
           (Inr \<lparr>restored = 1,
                 deleted = card {f \<in> fst ` set exampleFiles. map_of fs' f = None}\<rparr>,
            exampleWorld fs')"
    by (simp add: example_defs exampleVersion_def)
  moreover from written have "map_of fs' ''User.yaml'' = Some ''properties''"
    by (simp add: example_defs exampleVersion_def snapshotToYaml_exampleUser)
  moreover from gone have "map_of fs' ''Post.yaml'' = None" "map_of fs' ''Tag.yml'' = None"
    "map_of fs' ''notes.txt'' \<noteq> None"
    by (simp_all add: example_defs exampleVersion_def exampleFiles_def isYamlFile_def
        endsWith_def stripYamlExtension_def)
  moreover from none have "discardChanges (exampleCollaborators [] None) (exampleWorld exampleFiles)
     = (Inl NoVersionToRestoreFrom, exampleWorld exampleFiles)"
    by (simp add: example_defs)
  ultimately show ?thesis by blast
qed

text \<open>
  C2. Discard is meant to write a file for every schema of the latest snapshot, to delete
  the schema files that the snapshot lacks, and to count both. For a snapshot that the
  service itself built from a schema with an index in an older shape it does neither.
  The schema below declares \<^verbatim>\<open>options.indexes: ['email']\<close>, a shape that the schema
  service accepts (\<^verbatim>\<open>normalizeIndexes\<close>). \<^verbatim>\<open>schemasToSnapshot\<close> reads \<^verbatim>\<open>columns\<close>
  of the string and stores an index without columns. On discard, \<^verbatim>\<open>[...idx.columns]\<close>
  throws: the call fails with a \<^verbatim>\<open>TypeError\<close> although a latest version exists,
  \<^verbatim>\<open>User.yaml\<close> is not written and the stale \<^verbatim>\<open>Post.yaml\<close> is not deleted. The same
  happens when the stored index has lost its undefined entry and is the empty object.
\<close>

theorem discardChanges_fails_on_legacy_index:
  "schemasToSnapshot
       [(''User'', [(''name'', JStr ''User''),
          (''options'', JObj [(''indexes'', JArr [JStr ''email''])])])]
     = Inr [(''User'', exampleLegacy)]
   \<and> discardChanges
         (exampleCollaborators []
            (Some \<lparr>version = 1, migration = None, changes = [],
                   snapshot = [(''User'', exampleLegacy)]\<rparr>))
         (exampleWorld [(''User.yaml'', ''old''), (''Post.yaml'', ''stale'')])
     = (Inl TypeError, exampleWorld [(''User.yaml'', ''old''), (''Post.yaml'', ''stale'')])
   \<and> discardChanges
         (exampleCollaborators []
            (Some \<lparr>version = 1, migration = None, changes = [],
                   snapshot = [(''User'', [(''name'', JStr ''User''), (''kind'', JStr ''object''),
                      (''options'', JObj [(''indexes'', JArr [JObj []])])])]\<rparr>))
         (exampleWorld [(''User.yaml'', ''old''), (''Post.yaml'', ''stale'')])
     = (Inl TypeError, exampleWorld [(''User.yaml'', ''old''), (''Post.yaml'', ''stale'')])"
proof -
  have "schemasToSnapshot
       [(''User'', [(''name'', JStr ''User''),
          (''options'', JObj [(''indexes'', JArr [JStr ''email''])])])]
     = Inr [(''User'', exampleLegacy)]"
    by (simp add: normalise_defs exampleLegacy_def)
  moreover have "snapshotToYaml exampleLegacy = Inl TypeError"
    by (simp add: restore_defs setWhen_def objSet_def objGet_def exampleLegacy_def)
  then have "discardChanges
         (exampleCollaborators []
            (Some \<lparr>version = 1, migration = None, changes = [],
                   snapshot = [(''User'', exampleLegacy)]\<rparr>))
         (exampleWorld [(''User.yaml'', ''old''), (''Post.yaml'', ''stale'')])
     = (Inl TypeError, exampleWorld [(''User.yaml'', ''old''), (''Post.yaml'', ''stale'')])"
    by (simp add: discard_defs example_defs)
  moreover have "snapshotToYaml [(''name'', JStr ''User''), (''kind'', JStr ''object''),
                      (''options'', JObj [(''indexes'', JArr [JObj []])])] = Inl TypeError"
    by (simp add: restore_defs setWhen_def objSet_def objGet_def)
  then have "discardChanges
         (exampleCollaborators []
            (Some \<lparr>version = 1, migration = None, changes = [],
                   snapshot = [(''User'', [(''name'', JStr ''User''), (''kind'', JStr ''object''),
                      (''options'', JObj [(''indexes'', JArr [JObj []])])])]\<rparr>))
         (exampleWorld [(''User.yaml'', ''old''), (''Post.yaml'', ''stale'')])
     = (Inl TypeError, exampleWorld [(''User.yaml'', ''old''), (''Post.yaml'', ''stale'')])"
    by (simp add: discard_defs example_defs)
  ultimately show ?thesis by (intro conjI)
qed

text \<open>
  C10. After a successful \<^verbatim>\<open>discardChanges\<close>, a path whose content differs from
  before is either \<^verbatim>\<open><name>.yaml\<close> for a schema name of the snapshot, or a removed
  file whose base name the snapshot lacks. Hence for a schema of the snapshot that was
  on disk as \<^verbatim>\<open><name>.yml\<close>, that file still holds its old content, and
  \<^verbatim>\<open><name>.yaml\<close> holds the restored content beside it.
\<close>

theorem discardChanges_keeps_yml:
  assumes "discardChanges env w = (Inr r, w')"
    and "store w = Some st" and "store_readLatestVersion env st = Some lv"
    and "distinct (map fst (snapshot lv))"
  shows "(\<forall>p. map_of (files w') p \<noteq> map_of (files w) p
            \<longrightarrow> p \<in> (\<lambda>name. name @ ''.yaml'') ` fst ` set (snapshot lv)
                \<or> (map_of (files w') p = None
                    \<and> stripYamlExtension p \<notin> fst ` set (snapshot lv)))
     \<and> (\<forall>(name, ss) \<in> set (snapshot lv). \<forall>old.
            map_of (files w) (name @ ''.yml'') = Some old
            \<longrightarrow> map_of (files w') (name @ ''.yml'') = Some old
               \<and> (\<exists>y. snapshotToYaml ss = Inr y
                      \<and> map_of (files w') (name @ ''.yaml'') = Some (stringify env y)))"
proof -
  let ?snap = "snapshot lv"
  from assms(1-3) obtain n fs1 where
    rl: "restoreLoop (stringify env) ?snap (files w) 0 = (Inr n, fs1)" and
    dl: "deleteLoop (map fst ?snap) (filter isYamlFile (map fst (files w))) fs1 0
           = (deleted r, files w')"
    by (rule discardChanges_success)
  have frame: "\<forall>p. map_of (files w') p \<noteq> map_of (files w) p
            \<longrightarrow> p \<in> (\<lambda>name. name @ ''.yaml'') ` fst ` set ?snap
                \<or> (map_of (files w') p = None \<and> stripYamlExtension p \<notin> fst ` set ?snap)"
  proof (intro allI impI)
    fix p
    assume ne: "map_of (files w') p \<noteq> map_of (files w) p"
    show "p \<in> (\<lambda>name. name @ ''.yaml'') ` fst ` set ?snap
        \<or> (map_of (files w') p = None \<and> stripYamlExtension p \<notin> fst ` set ?snap)"
    proof (cases "p \<in> (\<lambda>name. name @ ''.yaml'') ` fst ` set ?snap")
      case True
      then show ?thesis ..
    next
      case False
      note e = discard_lookup(2) [OF rl dl False]
      have c: "p \<in> fst ` set (files w) \<and> isYamlFile p
          \<and> stripYamlExtension p \<notin> fst ` set ?snap"
      proof (rule ccontr)
        assume "\<not> (p \<in> fst ` set (files w) \<and> isYamlFile p
          \<and> stripYamlExtension p \<notin> fst ` set ?snap)"
        with e have "map_of (files w') p = map_of (files w) p" by simp
        with ne show False by contradiction
      qed
      with e have "map_of (files w') p = None" by simp
      with c show ?thesis by blast
    qed
  qed
  have yml: "\<forall>(name, ss) \<in> set ?snap. \<forall>old.
            map_of (files w) (name @ ''.yml'') = Some old
            \<longrightarrow> map_of (files w') (name @ ''.yml'') = Some old
               \<and> (\<exists>y. snapshotToYaml ss = Inr y
                      \<and> map_of (files w') (name @ ''.yaml'') = Some (stringify env y))"
  proof (intro ballI, clarify)
    fix name ss old
    assume m: "(name, ss) \<in> set ?snap" and old: "map_of (files w) (name @ ''.yml'') = Some old"
    from m have name: "name \<in> fst ` set ?snap" by force
    have "name @ ''.yml'' \<notin> (\<lambda>name. name @ ''.yaml'') ` fst ` set ?snap" by auto
    from discard_lookup(2) [OF rl dl this] name old
    have kept: "map_of (files w') (name @ ''.yml'') = Some old" by simp
    from restoreLoop_written [OF rl assms(4) m] obtain y where
      y: "snapshotToYaml ss = Inr y" "map_of fs1 (name @ ''.yaml'') = Some (stringify env y)"
      by blast
    from name have "name @ ''.yaml'' \<in> (\<lambda>name. name @ ''.yaml'') ` fst ` set ?snap" by blast
    from discard_lookup(1) [OF rl dl this] y
    have "\<exists>y. snapshotToYaml ss = Inr y \<and> map_of (files w') (name @ ''.yaml'') = Some (stringify env y)"
      by simp
    with kept show "map_of (files w') (name @ ''.yml'') = Some old
               \<and> (\<exists>y. snapshotToYaml ss = Inr y
                      \<and> map_of (files w') (name @ ''.yaml'') = Some (stringify env y))"
      by blast
  qed
  from frame yml show ?thesis by blast
qed

theorem discardChanges_keeps_yml_witness:
  "discardChanges (exampleCollaborators [] (Some exampleVersion))
       (exampleWorld [(''User.yml'', ''old'')])
     = (Inr \<lparr>restored = 1, deleted = 0\<rparr>,
        exampleWorld [(''User.yml'', ''old''), (''User.yaml'', ''properties'')])
   \<and> map_of (files (exampleWorld [(''User.yml'', ''old''), (''User.yaml'', ''properties'')]))
         ''User.yml'' = Some ''old''
   \<and> (\<exists>y. snapshotToYaml exampleUser = Inr y
          \<and> map_of (files (exampleWorld [(''User.yml'', ''old''), (''User.yaml'', ''properties'')]))
               ''User.yaml''
             = Some (stringify (exampleCollaborators [] (Some exampleVersion)) y))"
proof -
  let ?env = "exampleCollaborators [] (Some exampleVersion)"
  let ?w = "exampleWorld [(''User.yml'', ''old'')]"
  let ?w' = "exampleWorld [(''User.yml'', ''old''), (''User.yaml'', ''properties'')]"
  have run: "discardChanges ?env ?w = (Inr \<lparr>restored = 1, deleted = 0\<rparr>, ?w')"
    by (simp add: discard_defs example_defs exampleVersion_def snapshotToYaml_exampleUser)
  have st: "store ?w = Some ()" by (simp add: example_defs)
  have latest: "store_readLatestVersion ?env () = Some exampleVersion"
    by (simp add: example_defs)
  have d: "distinct (map fst (snapshot exampleVersion))"
    by (simp add: exampleVersion_def)
  from discardChanges_keeps_yml [OF run st latest d, THEN conjunct2]
  have "map_of (files ?w) (''User'' @ ''.yml'') = Some ''old''
            \<longrightarrow> map_of (files ?w') (''User'' @ ''.yml'') = Some ''old''
               \<and> (\<exists>y. snapshotToYaml exampleUser = Inr y
                      \<and> map_of (files ?w') (''User'' @ ''.yaml'') = Some (stringify ?env y))"
    by (simp add: exampleVersion_def)
  with run show ?thesis by (simp add: example_defs)
qed

section \<open>Discard and the kind of a schema\<close>

text \<open>
  C1. Discard is meant to write every schema of the snapshot, of every kind, so that the
  file normalises back to the same schema snapshot. For the kinds \<^verbatim>\<open>pivot\<close> and
  \<^verbatim>\<open>partial\<close> it does not. The pivot schema below is loaded and normalised to a
  snapshot of kind \<^verbatim>\<open>pivot\<close>; \<^verbatim>\<open>snapshotToYaml\<close> writes its properties but no
  kind, which is exactly what it writes for the same schema of kind \<^verbatim>\<open>object\<close>; the
  file read back normalises to kind \<^verbatim>\<open>object\<close>, which is not the snapshot that
  was stored.
\<close>

theorem discard_loses_pivot_kind:
  "schemasToSnapshot
       [(''RoleUser'', [(''name'', JStr ''RoleUser''), (''kind'', JStr ''pivot''),
          (''properties'', JObj [(''level'', JObj [(''type'', JStr ''Int'')])])])]
     = Inr [(''RoleUser'', examplePivot)]
   \<and> snapshotToYaml examplePivot
     = Inr [(''properties'', JObj [(''level'', JObj [(''type'', JStr ''Int'')])])]
   \<and> snapshotToYaml (objSet examplePivot ''kind'' (JStr ''object'')) = snapshotToYaml examplePivot
   \<and> schemasToSnapshot
       [(''RoleUser'', parsedSchemaFile ''RoleUser''
          [(''properties'', JObj [(''level'', JObj [(''type'', JStr ''Int'')])])])]
     = Inr [(''RoleUser'', objSet examplePivot ''kind'' (JStr ''object''))]
   \<and> objSet examplePivot ''kind'' (JStr ''object'') \<noteq> examplePivot"
  by (simp add: normalise_defs restore_defs examplePivot_def parsedSchemaFile_def)

end
